theory Spec2Isabelle
  imports Main "HOL-Library.Word" "HOL-Library.Signed_Division"
begin

unbundle bit_operations_syntax

section \<open>geoipupdate: the data the program works on\<close>

text \<open>
  The program is one Go file, \<^verbatim>\<open>geoipupdate.go\<close>. Its functions talk to an HTTP
  server, to the file system, to the log and to the random source. The embedding makes
  all of that explicit: every source function takes the \<open>world\<close> and returns it
  updated, together with what the Go function returns.

  Go's \<^verbatim>\<open>string\<close> and \<^verbatim>\<open>[]byte\<close> are both sequences of bytes, and the code converts
  between them freely (\<^verbatim>\<open>string(data[:])\<close>, \<^verbatim>\<open>[]byte(*licenseKey)\<close>); both are
  \<^typ>\<open>string\<close> here (a \<^typ>\<open>char\<close> is one byte). A \<^verbatim>\<open>nil\<close> slice is the empty list.
\<close>

type_synonym bytes = string

text \<open>A Go \<^verbatim>\<open>error\<close> value, by its message.\<close>

datatype error = Error string

text \<open>
  How a Go function call ends: it returns, the process exits (\<^verbatim>\<open>log.Fatal\<close>,
  \<^verbatim>\<open>log.Fatalf\<close>: \<^verbatim>\<open>os.Exit(1)\<close>), or it panics (integer division by zero).
\<close>

datatype 'a outcome = Returns 'a | Exits | Panics

text \<open>The command-line flags (lines 22-31), after \<^verbatim>\<open>flag.Parse()\<close>.\<close>

record flags =
  sourceHost :: string
  protocol :: string
  directory :: string
  userId :: string
  licenseKey :: string
  dolinks :: bool
  productIds :: string
  randomDelay :: string

text \<open>
  The functions of Go's standard library that the program calls and whose code is not
  part of the repository. They are parameters of the model: every theorem holds for
  whatever they compute.
  \<^item> \<open>md5_Sum\<close>: \<^verbatim>\<open>md5.New()\<close>, \<^verbatim>\<open>Write\<close>..., \<^verbatim>\<open>Sum(nil)\<close> on the bytes written;
  \<^item> \<open>gzip_NewReader\<close>: \<^verbatim>\<open>gzip.NewReader\<close> on a buffer (it reads the header and may
    fail); the reader is represented by the buffer it reads from;
  \<^item> \<open>gzip_ReadAll\<close>: \<^verbatim>\<open>ioutil.ReadAll\<close> on such a reader: the bytes read and the error,
    if any;
  \<^item> \<open>path_Base\<close>, \<open>path_Join\<close>: \<^verbatim>\<open>path.Base\<close>, \<^verbatim>\<open>path.Join\<close> (of two elements);
  \<^item> \<open>ParseDuration\<close>: \<^verbatim>\<open>time.ParseDuration\<close>, a duration being an \<^verbatim>\<open>int64\<close> of
    nanoseconds.
\<close>

record lib =
  md5_Sum :: "bytes \<Rightarrow> bytes"
  gzip_NewReader :: "bytes \<Rightarrow> error + bytes"
  gzip_ReadAll :: "bytes \<Rightarrow> bytes \<times> error option"
  path_Base :: "string \<Rightarrow> string"
  path_Join :: "string \<Rightarrow> string \<Rightarrow> string"
  ParseDuration :: "string \<Rightarrow> error + 64 word"

subsection \<open>HTTP\<close>

text \<open>
  The URL that \<^verbatim>\<open>download\<close> builds (lines 44-49), by its parts; the query is the
  \<^verbatim>\<open>map[string]string\<close> it was given.
\<close>

record request =
  Scheme :: string
  Host :: string
  Path :: string
  Query :: "string \<rightharpoonup> string"

text \<open>The two fields of \<^verbatim>\<open>http.Response\<close> that the program reads.\<close>

record response =
  StatusCode :: int
  Status :: string

text \<open>
  What one \<^verbatim>\<open>http.Get\<close> followed by \<^verbatim>\<open>ioutil.ReadAll(res.Body)\<close> can give:
  \<^verbatim>\<open>http.Get\<close> fails (\<open>GetError\<close>), or it gives a response, whose body is then read
  completely (\<open>Inr\<close>) or not (\<open>Inl\<close>).
\<close>

datatype http_reply = GetError error | Reply response "error + bytes"

subsection \<open>The log\<close>

text \<open>
  One constructor for each logging call of the source, with the values it prints. The
  text itself (time stamp, formatting verbs) is not modelled.
\<close>

datatype log_entry =
    Fatal_Get error
  | Download_ERROR request error
  | Attempting_to_update string
  | Update_retrieved string
  | No_new_updates string
  | Fatal_rand error
  | Cannot_parse_duration error
  | Waiting_for "64 word" "64 word"
  | Updating_geoip string string string
  | Cant_get_client_IP error
  | Making_legacy_links string
  | Done

subsection \<open>The world\<close>

text \<open>
  \<^item> \<open>network\<close>: the reply to the \<open>k\<close>-th request of the run (counting from 0), for every
    \<open>k\<close>; \<open>sent\<close>: the requests made so far, oldest first. A deterministic server's
    behaviour against this (deterministic) client is such a sequence of replies, so a
    theorem for every \<open>network\<close> covers every server.
  \<^item> \<open>files\<close>: the regular files, by path. Directories and links at the paths a session
    touches are not modelled. \<open>read_fault\<close>, \<open>write_fault\<close>, \<open>rename_fault\<close>: the
    failures of the file system, by the arguments of the call. A failed write reports
    its error and what it left at the path: \<open>None\<close> when the path is untouched, the
    partial content otherwise.
  \<^item> \<open>links\<close>: the symbolic links \<^verbatim>\<open>main\<close> creates, by the link's path.
  \<^item> \<open>entropy\<close>, \<open>drawn\<close>, \<open>rand_fault\<close>: the bytes \<^verbatim>\<open>crypto/rand\<close> gives, how many
    were taken, and whether \<^verbatim>\<open>rand.Read\<close> fails.
  \<^item> \<open>clientIp\<close>: the global variable of line 33.
  \<^item> \<open>logged\<close>, \<open>slept\<close>: what was logged, and the durations slept, oldest first.
\<close>

record world =
  network :: "nat \<Rightarrow> http_reply"
  sent :: "request list"
  files :: "string \<rightharpoonup> bytes"
  read_fault :: "string \<Rightarrow> error option"
  write_fault :: "string \<Rightarrow> bytes \<Rightarrow> (error \<times> bytes option) option"
  rename_fault :: "string \<Rightarrow> string \<Rightarrow> error option"
  links :: "string \<rightharpoonup> string"
  entropy :: "nat \<Rightarrow> char"
  drawn :: nat
  rand_fault :: "error option"
  clientIp :: string
  logged :: "log_entry list"
  slept :: "64 word list"

section \<open>The library calls with an effect\<close>

definition log_Printf :: "log_entry \<Rightarrow> world \<Rightarrow> world" where
  "log_Printf m w = w\<lparr>logged := logged w @ [m]\<rparr>"

definition http_Get :: "request \<Rightarrow> world \<Rightarrow> http_reply \<times> world" where
  "http_Get u w = (network w (length (sent w)), w\<lparr>sent := sent w @ [u]\<rparr>)"

text \<open>\<^verbatim>\<open>ioutil.ReadFile\<close>: fails on a missing file and on a read fault.\<close>

definition ioutil_ReadFile :: "string \<Rightarrow> world \<Rightarrow> error + bytes" where
  "ioutil_ReadFile fn w =
     (case files w fn of
        None \<Rightarrow> Inl (Error (''open '' @ fn @ '': no such file or directory''))
      | Some data \<Rightarrow> (case read_fault w fn of Some err \<Rightarrow> Inl err | None \<Rightarrow> Inr data))"

text \<open>
  \<^verbatim>\<open>ioutil.WriteFile\<close>: creates or truncates the file and writes the data. When it
  fails, the path is untouched or holds what the fault left there.
\<close>

definition ioutil_WriteFile :: "string \<Rightarrow> bytes \<Rightarrow> world \<Rightarrow> error option \<times> world" where
  "ioutil_WriteFile fn data w =
     (case write_fault w fn data of
        None \<Rightarrow> (None, w\<lparr>files := (files w)(fn \<mapsto> data)\<rparr>)
      | Some (err, None) \<Rightarrow> (Some err, w)
      | Some (err, Some part) \<Rightarrow> (Some err, w\<lparr>files := (files w)(fn \<mapsto> part)\<rparr>))"

text \<open>
  \<^verbatim>\<open>os.Rename\<close>: fails when the old path does not exist or on a fault, and changes
  nothing then; otherwise the new path holds the old path's content and the old path is
  gone, in one step.
\<close>

definition os_Rename :: "string \<Rightarrow> string \<Rightarrow> world \<Rightarrow> error option \<times> world" where
  "os_Rename oldpath newpath w =
     (case files w oldpath of
        None \<Rightarrow> (Some (Error (''rename '' @ oldpath @ '' '' @ newpath @ '': no such file or directory'')), w)
      | Some data \<Rightarrow>
          (case rename_fault w oldpath newpath of
             Some err \<Rightarrow> (Some err, w)
           | None \<Rightarrow> (None, w\<lparr>files := ((files w)(oldpath := None))(newpath \<mapsto> data)\<rparr>)))"

text \<open>\<^verbatim>\<open>os.Symlink\<close>: fails (changing nothing) when the new path exists.\<close>

definition os_Symlink :: "string \<Rightarrow> string \<Rightarrow> world \<Rightarrow> error option \<times> world" where
  "os_Symlink oldname newname w =
     (if files w newname \<noteq> None \<or> links w newname \<noteq> None
      then (Some (Error (''symlink '' @ oldname @ '' '' @ newname @ '': file exists'')), w)
      else (None, w\<lparr>links := (links w)(newname \<mapsto> oldname)\<rparr>))"

text \<open>\<^verbatim>\<open>rand.Read(b)\<close> for a slice of \<open>n\<close> bytes.\<close>

definition rand_Read :: "nat \<Rightarrow> world \<Rightarrow> (error + bytes) \<times> world" where
  "rand_Read n w =
     (case rand_fault w of
        Some err \<Rightarrow> (Inl err, w)
      | None \<Rightarrow> (Inr (map (\<lambda>i. entropy w (drawn w + i)) [0..<n]), w\<lparr>drawn := drawn w + n\<rparr>))"

definition time_Sleep :: "64 word \<Rightarrow> world \<Rightarrow> world" where
  "time_Sleep d w = w\<lparr>slept := slept w @ [d]\<rparr>"

section \<open>The pure library calls that are modelled\<close>

text \<open>\<^verbatim>\<open>bytes.HasPrefix(s, prefix)\<close>.\<close>

definition bytes_HasPrefix :: "bytes \<Rightarrow> bytes \<Rightarrow> bool" where
  "bytes_HasPrefix s p = (take (length p) s = p)"

text \<open>\<^verbatim>\<open>hex.EncodeToString\<close>: two lower-case hexadecimal digits for each byte.\<close>

definition hexdigit :: "nat \<Rightarrow> char" where
  "hexdigit n = ''0123456789abcdef'' ! (n mod 16)"

definition hex_EncodeToString :: "bytes \<Rightarrow> string" where
  "hex_EncodeToString src =
     concat (map (\<lambda>b. [hexdigit (of_char b div 16), hexdigit (of_char b mod 16)]) src)"

text \<open>
  \<^verbatim>\<open>strings.Split(s, sep)\<close> for a separator of one byte (the program splits at
  \<^verbatim>\<open>","\<close>): the pieces between the separators, an empty string giving one empty piece.
\<close>

fun strings_Split :: "string \<Rightarrow> char \<Rightarrow> string list" where
  "strings_Split [] sep = [[]]"
| "strings_Split (c # cs) sep =
     (if c = sep then [] # strings_Split cs sep
      else (case strings_Split cs sep of
              [] \<Rightarrow> [[c]]
            | piece # pieces \<Rightarrow> (c # piece) # pieces))"

text \<open>
  \<^verbatim>\<open>binary.BigEndian.Uint64(b)\<close> on the 8 bytes of \<open>b\<close>: the first byte is the most
  significant.
\<close>

definition BigEndian_Uint64 :: "bytes \<Rightarrow> 64 word" where
  "BigEndian_Uint64 b = foldl (\<lambda>acc c. push_bit 8 acc OR of_nat (of_char c)) 0 (take 8 b)"

section \<open>The program\<close>

text \<open>Lines 35-37. A Go \<^verbatim>\<open>int\<close> status code never comes near the limits of 64 bits.\<close>

definition isSuccess :: "int \<Rightarrow> bool" where
  "isSuccess statusCode = (statusCode \<ge> 200 \<and> statusCode \<le> 209)"

text \<open>
  Lines 39-61. Go returns \<^verbatim>\<open>(res, nil, err)\<close> or \<^verbatim>\<open>(res, data, nil)\<close>: the response and
  a sum. \<^verbatim>\<open>log.Fatal\<close> ends the process when \<^verbatim>\<open>http.Get\<close> fails.
\<close>

definition download ::
  "flags \<Rightarrow> string \<Rightarrow> (string \<rightharpoonup> string) \<Rightarrow> world \<Rightarrow> (response \<times> (error + bytes)) outcome \<times> world"
where
  "download F location query w =
     (let u = \<lparr>Scheme = protocol F, Host = sourceHost F, Path = location, Query = query\<rparr> in
      case http_Get u w of
        (GetError err, w1) \<Rightarrow> (Exits, log_Printf (Fatal_Get err) w1)
      | (Reply res body, w1) \<Rightarrow>
          (case body of
             Inl err \<Rightarrow> (Returns (res, Inl err), log_Printf (Download_ERROR u err) w1)
           | Inr data \<Rightarrow> (Returns (res, Inr data), w1)))"

text \<open>Lines 63-71.\<close>

definition md5File :: "lib \<Rightarrow> string \<Rightarrow> world \<Rightarrow> string" where
  "md5File L fn w =
     (case ioutil_ReadFile fn w of
        Inl err \<Rightarrow> ''00000000000000000000000000000000''
      | Inr data \<Rightarrow> hex_EncodeToString (md5_Sum L data))"

text \<open>
  Lines 73-84. The status is looked at before the error of \<^verbatim>\<open>download\<close>: a reply with
  a status outside the band gives the status error also when its body could not be read.
\<close>

definition updateSecure ::
  "flags \<Rightarrow> string \<Rightarrow> string \<Rightarrow> string \<Rightarrow> world \<Rightarrow> (error + bytes) outcome \<times> world"
where
  "updateSecure F oldDigest productId challenge w =
     (case download F ''/app/update_secure''
             [''db_md5'' \<mapsto> oldDigest, ''challenge_md5'' \<mapsto> challenge,
              ''user_id'' \<mapsto> userId F, ''edition_id'' \<mapsto> productId] w of
        (Exits, w1) \<Rightarrow> (Exits, w1)
      | (Panics, w1) \<Rightarrow> (Panics, w1)
      | (Returns (response, body), w1) \<Rightarrow>
          (if \<not> isSuccess (StatusCode response)
           then (Returns (Inl (Error (''Status '' @ Status response @ '' received''))), w1)
           else (Returns body, w1)))"

text \<open>
  The variables that the loop of \<^verbatim>\<open>getProduct\<close> (lines 105-139) changes:
  \<^verbatim>\<open>oldDigest\<close> (line 96), \<^verbatim>\<open>attempts\<close> (line 103) and \<^verbatim>\<open>uncompressed\<close> (line 104).
\<close>

record locals =
  oldDigest :: string
  attempts :: int
  uncompressed :: bytes

text \<open>
  How one pass through the loop body ends: at the closing brace (\<open>Continue\<close>, with the
  variables as they are then), at \<^verbatim>\<open>break\<close>, or by leaving \<^verbatim>\<open>getProduct\<close> (a
  \<^verbatim>\<open>return\<close>, or the exit of the process inside \<^verbatim>\<open>download\<close>).
\<close>

datatype flow = Continue locals | Break locals | Leave "error option outcome"

text \<open>
  Lines 106-138, one pass through the body of the \<^verbatim>\<open>for\<close> loop. \<^verbatim>\<open>defer gzr.Close()\<close>
  has no effect that the program observes.
\<close>

definition getProduct_body ::
  "lib \<Rightarrow> flags \<Rightarrow> string \<Rightarrow> string \<Rightarrow> string \<Rightarrow> locals \<Rightarrow> world \<Rightarrow> flow \<times> world"
where
  "getProduct_body L F productId filename challenge s w =
     (case updateSecure F (oldDigest s) productId challenge w of
        (Exits, w1) \<Rightarrow> (Leave Exits, w1)
      | (Panics, w1) \<Rightarrow> (Leave Panics, w1)
      | (Returns (Inl err), w1) \<Rightarrow> (Leave (Returns (Some err)), w1)
      | (Returns (Inr data), w1) \<Rightarrow>
          (if bytes_HasPrefix data ''No new updates available'' then
             (if length (uncompressed s) > 0
              then (Break s, log_Printf (Update_retrieved filename) w1)
              else (Leave (Returns None), log_Printf (No_new_updates filename) w1))
           else if \<not> bytes_HasPrefix data [CHR 0x1F, CHR 0x8B] then
             (Leave (Returns (Some (Error ''Not a gzip file''))), w1)
           else
             (let attempts' = attempts s + 1 in
              if attempts' > 5 then
                (Leave (Returns (Some (Error ''Too many attempts at downloading file''))), w1)
              else
                (case gzip_NewReader L data of
                   Inl err \<Rightarrow> (Leave (Returns (Some err)), w1)
                 | Inr gzr \<Rightarrow>
                     (case gzip_ReadAll L gzr of
                        (u, Some err) \<Rightarrow> (Leave (Returns (Some err)), w1)
                      | (u, None) \<Rightarrow>
                          (Continue \<lparr>oldDigest = hex_EncodeToString (md5_Sum L u),
                                     attempts = attempts', uncompressed = u\<rparr>, w1))))))"

text \<open>
  Lines 105-139, the loop: the body again after \<open>Continue\<close>. It ends at \<^verbatim>\<open>break\<close>
  (\<open>Inl\<close>, with the variables for the code after the loop) or by leaving
  \<^verbatim>\<open>getProduct\<close> (\<open>Inr\<close>).
\<close>

function getProduct_loop ::
  "lib \<Rightarrow> flags \<Rightarrow> string \<Rightarrow> string \<Rightarrow> string \<Rightarrow> locals \<Rightarrow> world
     \<Rightarrow> (locals + error option outcome) \<times> world"
where
  "getProduct_loop L F productId filename challenge s w =
     (case getProduct_body L F productId filename challenge s w of
        (fl, w') \<Rightarrow>
          (case fl of
             Continue s' \<Rightarrow> getProduct_loop L F productId filename challenge s' w'
           | Break s' \<Rightarrow> (Inl s', w')
           | Leave out \<Rightarrow> (Inr out, w')))"
  by pat_completeness auto
termination
proof (relation "measure (\<lambda>(L, F, productId, filename, challenge, s, w). nat (5 - attempts s))")
  show "wf (measure (\<lambda>(L, F, productId, filename, challenge, s, w). nat (5 - attempts s)))"
    by simp
next
  fix L F productId filename challenge s w fl w' s'
  assume "(fl, w') = getProduct_body L F productId filename challenge s w" and "fl = Continue s'"
  then have "getProduct_body L F productId filename challenge s w = (Continue s', w')"
    by simp
  then have "attempts s' = attempts s + 1 \<and> attempts s' \<le> 5"
    by (auto simp: getProduct_body_def Let_def
        split: prod.splits outcome.splits sum.splits if_splits option.splits)
  then show "((L, F, productId, filename, challenge, s', w'), (L, F, productId, filename, challenge, s, w))
        \<in> measure (\<lambda>(L, F, productId, filename, challenge, s, w). nat (5 - attempts s))"
    by simp
qed

text \<open>
  Lines 141-150, the code after the loop: the payload goes to the temporary file,
  which is then renamed to the file's path.
\<close>

definition getProduct_publish :: "string \<Rightarrow> bytes \<Rightarrow> world \<Rightarrow> error option outcome \<times> world" where
  "getProduct_publish filePath payload w =
     (let tmpFilePath = filePath @ ''.tmp'' in
      case ioutil_WriteFile tmpFilePath payload w of
        (Some err, w1) \<Rightarrow> (Returns (Some err), w1)
      | (None, w1) \<Rightarrow>
          (case os_Rename tmpFilePath filePath w1 of
             (Some err, w2) \<Rightarrow> (Returns (Some err), w2)
           | (None, w2) \<Rightarrow> (Returns None, w2)))"

text \<open>Lines 86-151.\<close>

definition getProduct :: "lib \<Rightarrow> flags \<Rightarrow> string \<Rightarrow> world \<Rightarrow> error option outcome \<times> world" where
  "getProduct L F productId w =
     (case download F ''/app/update_getfilename'' [''product_id'' \<mapsto> productId] w of
        (Exits, w1) \<Rightarrow> (Exits, w1)
      | (Panics, w1) \<Rightarrow> (Panics, w1)
      | (Returns (response, Inl err), w1) \<Rightarrow> (Returns (Some err), w1)
      | (Returns (response, Inr data), w1) \<Rightarrow>
          (if \<not> isSuccess (StatusCode response)
           then (Returns (Some (Error (''Status '' @ Status response @ '' received''))), w1)
           else
             (let filename = path_Base L data;
                  w2 = log_Printf (Attempting_to_update filename) w1;
                  filePath = path_Join L (directory F) filename;
                  digest = md5File L filePath w2;
                  challenge = hex_EncodeToString (md5_Sum L (licenseKey F @ clientIp w2))
              in case getProduct_loop L F productId filename challenge
                        \<lparr>oldDigest = digest, attempts = 0, uncompressed = []\<rparr> w2 of
                   (Inr out, w3) \<Rightarrow> (out, w3)
                 | (Inl s, w3) \<Rightarrow> getProduct_publish filePath (uncompressed s) w3)))"

text \<open>Lines 153-163.\<close>

definition getClientIp :: "flags \<Rightarrow> world \<Rightarrow> error option outcome \<times> world" where
  "getClientIp F w =
     (case download F ''/app/update_getipaddr'' Map.empty w of
        (Exits, w1) \<Rightarrow> (Exits, w1)
      | (Panics, w1) \<Rightarrow> (Panics, w1)
      | (Returns (response, Inl err), w1) \<Rightarrow> (Returns (Some err), w1)
      | (Returns (response, Inr data), w1) \<Rightarrow>
          (if \<not> isSuccess (StatusCode response)
           then (Returns (Some (Error (''Status '' @ Status response @ '' received''))), w1)
           else (Returns None, w1\<lparr>clientIp := data\<rparr>)))"

text \<open>
  Lines 165-173. \<^verbatim>\<open>int64\<close> is a 64-bit word read as two's complement. Go's \<^verbatim>\<open>%\<close>
  truncates (the remainder has the sign of the dividend: \<open>smod\<close> on \<^typ>\<open>int\<close>), and it
  panics when the divisor is zero.
\<close>

definition randInt64 :: "64 word \<Rightarrow> world \<Rightarrow> 64 word outcome \<times> world" where
  "randInt64 mx w =
     (case rand_Read 8 w of
        (Inl err, w1) \<Rightarrow> (Exits, log_Printf (Fatal_rand err) w1)
      | (Inr b, w1) \<Rightarrow>
          (let data = BigEndian_Uint64 b AND 0x7fffffffffffffff in
           if mx = 0 then (Panics, w1)
           else (Returns (word_of_int (sint data smod sint mx)), w1)))"

text \<open>Lines 178-186 of \<^verbatim>\<open>main\<close>: the random delay before the run.\<close>

definition main_delay :: "lib \<Rightarrow> flags \<Rightarrow> world \<Rightarrow> unit outcome \<times> world" where
  "main_delay L F w =
     (if randomDelay F \<noteq> [] then
        (case ParseDuration L (randomDelay F) of
           Inl err \<Rightarrow> (Exits, log_Printf (Cannot_parse_duration err) w)
         | Inr dur \<Rightarrow>
             (case randInt64 dur w of
                (Exits, w1) \<Rightarrow> (Exits, w1)
              | (Panics, w1) \<Rightarrow> (Panics, w1)
              | (Returns rdur, w1) \<Rightarrow>
                  (Returns (), time_Sleep rdur (log_Printf (Waiting_for rdur dur) w1))))
      else (Returns (), w))"

text \<open>
  Lines 192-194 of \<^verbatim>\<open>main\<close>: the loop over the product ids. What \<^verbatim>\<open>getProduct\<close>
  returns is dropped; the loop goes on unless the process has ended.
\<close>

fun main_products :: "lib \<Rightarrow> flags \<Rightarrow> string list \<Rightarrow> world \<Rightarrow> unit outcome \<times> world" where
  "main_products L F [] w = (Returns (), w)"
| "main_products L F (p # ps) w =
     (case getProduct L F p w of
        (Exits, w1) \<Rightarrow> (Exits, w1)
      | (Panics, w1) \<Rightarrow> (Panics, w1)
      | (Returns err, w1) \<Rightarrow> main_products L F ps w1)"

text \<open>Lines 195-199 of \<^verbatim>\<open>main\<close>: the legacy links; the errors of \<^verbatim>\<open>os.Symlink\<close> are dropped.\<close>

definition main_links :: "lib \<Rightarrow> flags \<Rightarrow> world \<Rightarrow> world" where
  "main_links L F w =
     (if dolinks F then
        (let w1 = log_Printf (Making_legacy_links (directory F)) w;
             w2 = snd (os_Symlink (path_Join L (directory F) ''GeoLiteCity.dat'')
                         (path_Join L (directory F) ''GeoIPCity.dat'') w1)
         in snd (os_Symlink (path_Join L (directory F) ''GeoLiteCountry.dat'')
                   (path_Join L (directory F) ''GeoIP.dat'') w2))
      else w)"

text \<open>Lines 175-201.\<close>

definition main :: "lib \<Rightarrow> flags \<Rightarrow> world \<Rightarrow> unit outcome \<times> world" where
  "main L F w =
     (case main_delay L F w of
        (Exits, w1) \<Rightarrow> (Exits, w1)
      | (Panics, w1) \<Rightarrow> (Panics, w1)
      | (Returns u, w1) \<Rightarrow>
          (case getClientIp F
                  (log_Printf (Updating_geoip (directory F) (sourceHost F) (protocol F)) w1) of
             (Exits, w2) \<Rightarrow> (Exits, w2)
           | (Panics, w2) \<Rightarrow> (Panics, w2)
           | (Returns (Some err), w2) \<Rightarrow> (Exits, log_Printf (Cant_get_client_IP err) w2)
           | (Returns None, w2) \<Rightarrow>
               (case main_products L F (strings_Split (productIds F) CHR '','') w2 of
                  (Exits, w3) \<Rightarrow> (Exits, w3)
                | (Panics, w3) \<Rightarrow> (Panics, w3)
                | (Returns u', w3) \<Rightarrow> (Returns (), log_Printf Done (main_links L F w3)))))"

section \<open>Vocabulary for the properties\<close>

text \<open>
  The variables at the head of the loop of \<^verbatim>\<open>getProduct\<close>, pass after pass, each with
  the world it polls in: the first pair is the start of the loop, and every further pair
  is what a pass that reached the closing brace left. Same body, same recursion as
  \<open>getProduct_loop\<close>.
\<close>

function getProduct_rounds ::
  "lib \<Rightarrow> flags \<Rightarrow> string \<Rightarrow> string \<Rightarrow> string \<Rightarrow> locals \<Rightarrow> world \<Rightarrow> (locals \<times> world) list"
where
  "getProduct_rounds L F productId filename challenge s w =
     (s, w) #
     (case getProduct_body L F productId filename challenge s w of
        (fl, w') \<Rightarrow>
          (case fl of
             Continue s' \<Rightarrow> getProduct_rounds L F productId filename challenge s' w'
           | Break s' \<Rightarrow> []
           | Leave out \<Rightarrow> []))"
  by pat_completeness auto
termination
proof (relation "measure (\<lambda>(L, F, productId, filename, challenge, s, w). nat (5 - attempts s))")
  show "wf (measure (\<lambda>(L, F, productId, filename, challenge, s, w). nat (5 - attempts s)))"
    by simp
next
  fix L F productId filename challenge s w fl w' s'
  assume "(fl, w') = getProduct_body L F productId filename challenge s w" and "fl = Continue s'"
  then have "getProduct_body L F productId filename challenge s w = (Continue s', w')"
    by simp
  then have "attempts s' = attempts s + 1 \<and> attempts s' \<le> 5"
    by (auto simp: getProduct_body_def Let_def
        split: prod.splits outcome.splits sum.splits if_splits option.splits)
  then show "((L, F, productId, filename, challenge, s', w'), (L, F, productId, filename, challenge, s, w))
        \<in> measure (\<lambda>(L, F, productId, filename, challenge, s, w). nat (5 - attempts s))"
    by simp
qed

text \<open>The URL that \<^verbatim>\<open>download\<close> requests (lines 44-49).\<close>

definition request_of :: "flags \<Rightarrow> string \<Rightarrow> (string \<rightharpoonup> string) \<Rightarrow> request" where
  "request_of F location query =
     \<lparr>Scheme = protocol F, Host = sourceHost F, Path = location, Query = query\<rparr>"

text \<open>The request of \<^verbatim>\<open>updateSecure\<close> (lines 74-79): one poll.\<close>

definition poll_request :: "flags \<Rightarrow> string \<Rightarrow> string \<Rightarrow> string \<Rightarrow> request" where
  "poll_request F digest productId challenge =
     request_of F ''/app/update_secure''
       [''db_md5'' \<mapsto> digest, ''challenge_md5'' \<mapsto> challenge,
        ''user_id'' \<mapsto> userId F, ''edition_id'' \<mapsto> productId]"

text \<open>The first request of \<^verbatim>\<open>getProduct\<close> (line 87).\<close>

definition getfilename_request :: "flags \<Rightarrow> string \<Rightarrow> request" where
  "getfilename_request F productId =
     request_of F ''/app/update_getfilename'' [''product_id'' \<mapsto> productId]"

text \<open>
  What \<^verbatim>\<open>getProduct\<close> computes before the loop from the body of its first reply:
  the path of the file (lines 93-95), the challenge (lines 98-101), and the variables
  the loop starts with (lines 96, 103, 104).
\<close>

definition getProduct_filePath :: "lib \<Rightarrow> flags \<Rightarrow> bytes \<Rightarrow> string" where
  "getProduct_filePath L F data = path_Join L (directory F) (path_Base L data)"

definition getProduct_challenge :: "lib \<Rightarrow> flags \<Rightarrow> world \<Rightarrow> string" where
  "getProduct_challenge L F w = hex_EncodeToString (md5_Sum L (licenseKey F @ clientIp w))"

definition getProduct_init :: "lib \<Rightarrow> flags \<Rightarrow> bytes \<Rightarrow> world \<Rightarrow> locals" where
  "getProduct_init L F data w =
     \<lparr>oldDigest = md5File L (getProduct_filePath L F data) w, attempts = 0, uncompressed = []\<rparr>"

text \<open>
  The world the loop starts in, when the first reply had a status in the band and its
  body was read: the first request is sent (line 87) and the name is logged (line 94).
\<close>

definition getProduct_start :: "lib \<Rightarrow> flags \<Rightarrow> string \<Rightarrow> bytes \<Rightarrow> world \<Rightarrow> world" where
  "getProduct_start L F productId data w =
     w\<lparr>sent := sent w @ [getfilename_request F productId],
       logged := logged w @ [Attempting_to_update (path_Base L data)]\<rparr>"

text \<open>
  A product was attempted in a list of requests when \<^verbatim>\<open>getProduct\<close>'s first request for
  it (line 87) is among them.
\<close>

definition attempted :: "string \<Rightarrow> request list \<Rightarrow> bool" where
  "attempted productId reqs =
     list_ex (\<lambda>r. Path r = ''/app/update_getfilename'' \<and> Query r ''product_id'' = Some productId)
       reqs"

text \<open>
  The three kinds of reply to a poll, by the tests the loop makes on a reply that
  \<^verbatim>\<open>updateSecure\<close> hands over (its body was read and its status is in the band): the
  test of line 109 (\<open>is_NoUpdate\<close>), then the test of line 118 (\<open>is_Malformed\<close> when it
  fails, \<open>is_GzipPayload\<close> otherwise).
\<close>

definition is_NoUpdate :: "http_reply \<Rightarrow> bool" where
  "is_NoUpdate r =
     (case r of
        Reply res (Inr data) \<Rightarrow>
          isSuccess (StatusCode res) \<and> bytes_HasPrefix data ''No new updates available''
      | _ \<Rightarrow> False)"

definition is_Malformed :: "http_reply \<Rightarrow> bool" where
  "is_Malformed r =
     (case r of
        Reply res (Inr data) \<Rightarrow>
          isSuccess (StatusCode res) \<and> \<not> bytes_HasPrefix data ''No new updates available''
          \<and> \<not> bytes_HasPrefix data [CHR 0x1F, CHR 0x8B]
      | _ \<Rightarrow> False)"

definition is_GzipPayload :: "http_reply \<Rightarrow> bool" where
  "is_GzipPayload r =
     (case r of
        Reply res (Inr data) \<Rightarrow>
          isSuccess (StatusCode res) \<and> \<not> bytes_HasPrefix data ''No new updates available''
          \<and> bytes_HasPrefix data [CHR 0x1F, CHR 0x8B]
      | _ \<Rightarrow> False)"

definition is_GetError :: "http_reply \<Rightarrow> bool" where
  "is_GetError r = (case r of GetError err \<Rightarrow> True | _ \<Rightarrow> False)"

text \<open>Lines 125-134 in one: the reader on the body, then everything read from it.\<close>

definition gunzip :: "lib \<Rightarrow> bytes \<Rightarrow> error + bytes" where
  "gunzip L data =
     (case gzip_NewReader L data of
        Inl err \<Rightarrow> Inl err
      | Inr gzr \<Rightarrow> (case gzip_ReadAll L gzr of (u, Some err) \<Rightarrow> Inl err | (u, None) \<Rightarrow> Inr u))"

text \<open>A reply whose body was read and decompresses without an error.\<close>

definition decompresses :: "lib \<Rightarrow> http_reply \<Rightarrow> bool" where
  "decompresses L r =
     (case r of
        Reply res (Inr data) \<Rightarrow> (case gunzip L data of Inl err \<Rightarrow> False | Inr u \<Rightarrow> True)
      | _ \<Rightarrow> False)"

text \<open>What a reply to a poll decompresses to; empty when it has no body or does not decompress.\<close>

definition payload_of :: "lib \<Rightarrow> http_reply \<Rightarrow> bytes" where
  "payload_of L r =
     (case r of
        Reply res (Inr data) \<Rightarrow> (case gunzip L data of Inl err \<Rightarrow> [] | Inr u \<Rightarrow> u)
      | _ \<Rightarrow> [])"

section \<open>Concrete inputs for the examples\<close>

text \<open>The flags at their defaults (lines 23-30).\<close>

definition default_flags :: flags where
  "default_flags =
     \<lparr>sourceHost = ''updates.maxmind.com'', protocol = ''https'',
      directory = ''/usr/local/var/GeoIP'', userId = ''999999'',
      licenseKey = ''000000000000'', dolinks = True, productIds = ''506,533,517'',
      randomDelay = []\<rparr>"

text \<open>
  Stand-ins for the library, for the examples only: a digest that is not MD5, a
  decompression that drops the two bytes of the magic number, paths joined with a
  slash, and two durations.
\<close>

definition example_lib :: lib where
  "example_lib =
     \<lparr>md5_Sum = (\<lambda>b. take 16 (b @ replicate 16 (CHR 0x00))),
      gzip_NewReader = (\<lambda>b. Inr b),
      gzip_ReadAll = (\<lambda>b. (drop 2 b, None)),
      path_Base = (\<lambda>p. p),
      path_Join = (\<lambda>d f. d @ ''/'' @ f),
      ParseDuration = (\<lambda>s. if s = ''0s'' then Inr 0
                            else if s = ''1s'' then Inr 1000000000
                            else Inl (Error ''time: invalid duration''))\<rparr>"

text \<open>A world with no files, no faults and nothing sent, facing the given network.\<close>

definition example_world :: "(nat \<Rightarrow> http_reply) \<Rightarrow> world" where
  "example_world net =
     \<lparr>network = net, sent = [], files = Map.empty, read_fault = (\<lambda>p. None),
      write_fault = (\<lambda>p d. None), rename_fault = (\<lambda>p q. None), links = Map.empty,
      entropy = (\<lambda>i. CHR 0xA5), drawn = 0, rand_fault = None, clientIp = ''192.0.2.1'',
      logged = [], slept = []\<rparr>"

text \<open>A network that answers with the replies of a list, in order, and then is down.\<close>

definition script :: "http_reply list \<Rightarrow> nat \<Rightarrow> http_reply" where
  "script rs k = (if k < length rs then rs ! k else GetError (Error ''connection refused''))"

definition ok :: "bytes \<Rightarrow> http_reply" where
  "ok body = Reply \<lparr>StatusCode = 200, Status = ''200 OK''\<rparr> (Inr body)"

text \<open>A body with the magic number of gzip in front of the content.\<close>

definition gz :: "bytes \<Rightarrow> bytes" where
  "gz content = [CHR 0x1F, CHR 0x8B] @ content"

text \<open>A server that answers every poll with a new payload.\<close>

definition endless_updates :: "nat \<Rightarrow> http_reply" where
  "endless_updates k = (if k = 0 then ok ''GeoIP.dat'' else ok (gz ''AAA''))"

text \<open>A server with two payloads in a row, and one with a payload of no bytes.\<close>

definition two_updates :: world where
  "two_updates =
     example_world (script [ok ''GeoIP.dat'', ok (gz ''AAA''), ok (gz ''BBB''),
                            ok ''No new updates available''])"

definition empty_update :: world where
  "empty_update =
     example_world (script [ok ''GeoIP.dat'', ok (gz []), ok ''No new updates available''])"

text \<open>
  A server that can be reached for the client's address and not after that, and one
  that is always reached but breaks off the first body, answers the second request with
  a status 500 and has no updates.
\<close>

definition unreachable_after_ip :: world where
  "unreachable_after_ip = example_world (script [ok ''192.0.2.1''])"

definition flaky :: "nat \<Rightarrow> http_reply" where
  "flaky k =
     (if k = 0 then Reply \<lparr>StatusCode = 200, Status = ''200 OK''\<rparr> (Inl (Error ''unexpected EOF''))
      else if k = 1
      then Reply \<lparr>StatusCode = 500, Status = ''500 Internal Server Error''\<rparr> (Inr ''busy'')
      else ok ''No new updates available'')"

text \<open>A server whose second answer to the polls is a page of HTML.\<close>

definition html_after_update :: world where
  "html_after_update =
     example_world (script [ok ''GeoIP.dat'', ok (gz ''AAA''), ok ''<html>busy</html>''])"

section \<open>What the steps change\<close>

declare getProduct_loop.simps [simp del] getProduct_rounds.simps [simp del]

lemma download_frame:
  "files (snd (download F loc q w)) = files w"
  "network (snd (download F loc q w)) = network w"
  "read_fault (snd (download F loc q w)) = read_fault w"
  "write_fault (snd (download F loc q w)) = write_fault w"
  "rename_fault (snd (download F loc q w)) = rename_fault w"
  "clientIp (snd (download F loc q w)) = clientIp w"
  "sent (snd (download F loc q w)) = sent w @ [request_of F loc q]"
  by (auto simp: download_def http_Get_def log_Printf_def Let_def request_of_def
      split: http_reply.splits sum.splits)

lemma download_fst:
  "fst (download F loc q w) =
     (case network w (length (sent w)) of
        GetError err \<Rightarrow> Exits
      | Reply res body \<Rightarrow> Returns (res, body))"
  by (auto simp: download_def http_Get_def log_Printf_def Let_def split: http_reply.splits sum.splits)

lemma download_logged:
  "logged (snd (download F loc q w)) =
     (case network w (length (sent w)) of
        GetError err \<Rightarrow> logged w @ [Fatal_Get err]
      | Reply res (Inl err) \<Rightarrow> logged w @ [Download_ERROR (request_of F loc q) err]
      | Reply res (Inr data) \<Rightarrow> logged w)"
  by (auto simp: download_def http_Get_def log_Printf_def Let_def request_of_def
      split: http_reply.splits sum.splits)

lemma updateSecure_snd:
  "snd (updateSecure F d p c w) =
     snd (download F ''/app/update_secure''
             [''db_md5'' \<mapsto> d, ''challenge_md5'' \<mapsto> c, ''user_id'' \<mapsto> userId F, ''edition_id'' \<mapsto> p] w)"
  by (auto simp: updateSecure_def split: prod.splits outcome.splits)

lemma updateSecure_fst:
  "fst (updateSecure F d p c w) =
     (case network w (length (sent w)) of
        GetError err \<Rightarrow> Exits
      | Reply res body \<Rightarrow>
          Returns (if \<not> isSuccess (StatusCode res)
                   then Inl (Error (''Status '' @ Status res @ '' received'')) else body))"
proof -
  have "fst (updateSecure F d p c w) =
     (case fst (download F ''/app/update_secure''
             [''db_md5'' \<mapsto> d, ''challenge_md5'' \<mapsto> c, ''user_id'' \<mapsto> userId F, ''edition_id'' \<mapsto> p] w) of
        Exits \<Rightarrow> Exits | Panics \<Rightarrow> Panics
      | Returns (res, body) \<Rightarrow> Returns (if \<not> isSuccess (StatusCode res)
                   then Inl (Error (''Status '' @ Status res @ '' received'')) else body))"
    by (auto simp: updateSecure_def split: prod.splits outcome.splits)
  then show ?thesis
    by (simp add: download_fst split: http_reply.splits)
qed

lemma updateSecure_frame:
  "files (snd (updateSecure F d p c w)) = files w"
  "network (snd (updateSecure F d p c w)) = network w"
  "read_fault (snd (updateSecure F d p c w)) = read_fault w"
  "write_fault (snd (updateSecure F d p c w)) = write_fault w"
  "rename_fault (snd (updateSecure F d p c w)) = rename_fault w"
  "clientIp (snd (updateSecure F d p c w)) = clientIp w"
  "sent (snd (updateSecure F d p c w)) = sent w @ [poll_request F d p c]"
  by (simp_all add: updateSecure_snd download_frame poll_request_def)

section \<open>One pass through the loop\<close>

lemma download_ok:
  assumes "network w (length (sent w)) = Reply res (Inr data)"
  shows "download F loc q w = (Returns (res, Inr data), w\<lparr>sent := sent w @ [request_of F loc q]\<rparr>)"
  using assms by (simp add: download_def http_Get_def request_of_def)

lemma updateSecure_ok:
  assumes "network w (length (sent w)) = Reply res (Inr data)" "isSuccess (StatusCode res)"
  shows "updateSecure F d p c w
           = (Returns (Inr data), w\<lparr>sent := sent w @ [poll_request F d p c]\<rparr>)"
  using assms download_ok [OF assms(1), of F "''/app/update_secure''"]
  by (simp add: updateSecure_def poll_request_def)

lemma magic_not_marker:
  "bytes_HasPrefix data [CHR 0x1F, CHR 0x8B] \<Longrightarrow> \<not> bytes_HasPrefix data ''No new updates available''"
  by (cases data) (auto simp: bytes_HasPrefix_def)

lemma getProduct_body_snd:
  "\<exists>ms. snd (getProduct_body L F p fn c s w)
          = (snd (updateSecure F (oldDigest s) p c w))
              \<lparr>logged := logged (snd (updateSecure F (oldDigest s) p c w)) @ ms\<rparr>"
proof -
  obtain r w1 where u: "updateSecure F (oldDigest s) p c w = (r, w1)"
    by (cases "updateSecure F (oldDigest s) p c w")
  have e: "w1 = w1\<lparr>logged := logged w1 @ []\<rparr>" by simp
  show ?thesis
    unfolding getProduct_body_def u
    by (auto simp: Let_def log_Printf_def intro: exI [of _ "[]"]
        split: outcome.splits sum.splits prod.splits option.splits)
qed

lemma getProduct_body_frame:
  "files (snd (getProduct_body L F p fn c s w)) = files w"
  "network (snd (getProduct_body L F p fn c s w)) = network w"
  "read_fault (snd (getProduct_body L F p fn c s w)) = read_fault w"
  "write_fault (snd (getProduct_body L F p fn c s w)) = write_fault w"
  "rename_fault (snd (getProduct_body L F p fn c s w)) = rename_fault w"
  "clientIp (snd (getProduct_body L F p fn c s w)) = clientIp w"
  "sent (snd (getProduct_body L F p fn c s w)) = sent w @ [poll_request F (oldDigest s) p c]"
  using getProduct_body_snd [of L F p fn c s w]
  by (auto simp: updateSecure_frame)

lemma getProduct_body_fst:
  "fst (getProduct_body L F p fn c s w) =
     (case network w (length (sent w)) of
        GetError err \<Rightarrow> Leave Exits
      | Reply res body \<Rightarrow>
          if \<not> isSuccess (StatusCode res)
          then Leave (Returns (Some (Error (''Status '' @ Status res @ '' received''))))
          else (case body of
                  Inl err \<Rightarrow> Leave (Returns (Some err))
                | Inr data \<Rightarrow>
                    if bytes_HasPrefix data ''No new updates available'' then
                      (if length (uncompressed s) > 0 then Break s else Leave (Returns None))
                    else if \<not> bytes_HasPrefix data [CHR 0x1F, CHR 0x8B] then
                      Leave (Returns (Some (Error ''Not a gzip file'')))
                    else if attempts s + 1 > 5 then
                      Leave (Returns (Some (Error ''Too many attempts at downloading file'')))
                    else (case gunzip L data of
                            Inl err \<Rightarrow> Leave (Returns (Some err))
                          | Inr u \<Rightarrow> Continue \<lparr>oldDigest = hex_EncodeToString (md5_Sum L u),
                                                attempts = attempts s + 1, uncompressed = u\<rparr>)))"
proof -
  obtain r w1 where u: "updateSecure F (oldDigest s) p c w = (r, w1)"
    by (cases "updateSecure F (oldDigest s) p c w")
  then have r: "r = fst (updateSecure F (oldDigest s) p c w)" by simp
  show ?thesis
    unfolding getProduct_body_def u
    unfolding r updateSecure_fst
    by (auto simp: Let_def gunzip_def
        split: http_reply.splits outcome.splits sum.splits prod.splits option.splits)
qed

lemma loop_Continue:
  "getProduct_body L F p fn c s w = (Continue s', w') \<Longrightarrow>
   getProduct_loop L F p fn c s w = getProduct_loop L F p fn c s' w'"
  by (subst getProduct_loop.simps) simp

lemma loop_Break:
  "getProduct_body L F p fn c s w = (Break s', w') \<Longrightarrow>
   getProduct_loop L F p fn c s w = (Inl s', w')"
  by (subst getProduct_loop.simps) simp

lemma loop_Leave:
  "getProduct_body L F p fn c s w = (Leave out, w') \<Longrightarrow>
   getProduct_loop L F p fn c s w = (Inr out, w')"
  by (subst getProduct_loop.simps) simp

lemma rounds_Continue:
  "getProduct_body L F p fn c s w = (Continue s', w') \<Longrightarrow>
   getProduct_rounds L F p fn c s w = (s, w) # getProduct_rounds L F p fn c s' w'"
  by (subst getProduct_rounds.simps) simp

lemma rounds_Break:
  "getProduct_body L F p fn c s w = (Break s', w') \<Longrightarrow>
   getProduct_rounds L F p fn c s w = [(s, w)]"
  by (subst getProduct_rounds.simps) simp

lemma rounds_Leave:
  "getProduct_body L F p fn c s w = (Leave out, w') \<Longrightarrow>
   getProduct_rounds L F p fn c s w = [(s, w)]"
  by (subst getProduct_rounds.simps) simp

lemma body_Continue_facts:
  assumes "getProduct_body L F p fn c s w = (Continue s', w')"
  shows "attempts s' = attempts s + 1" "attempts s' \<le> 5"
    "is_GzipPayload (network w (length (sent w)))"
    "decompresses L (network w (length (sent w)))"
    "uncompressed s' = payload_of L (network w (length (sent w)))"
    "oldDigest s' = hex_EncodeToString (md5_Sum L (uncompressed s'))"
    "w' = snd (getProduct_body L F p fn c s w)"
proof -
  have f: "fst (getProduct_body L F p fn c s w) = Continue s'" using assms by simp
  show "attempts s' = attempts s + 1" "attempts s' \<le> 5"
    "is_GzipPayload (network w (length (sent w)))"
    "decompresses L (network w (length (sent w)))"
    "uncompressed s' = payload_of L (network w (length (sent w)))"
    "oldDigest s' = hex_EncodeToString (md5_Sum L (uncompressed s'))"
    using f unfolding getProduct_body_fst
    by (auto simp: is_GzipPayload_def decompresses_def payload_of_def
        split: http_reply.splits sum.splits if_splits)
  show "w' = snd (getProduct_body L F p fn c s w)" using assms by simp
qed


section \<open>The loop\<close>

lemma loop_frame:
  "files (snd (getProduct_loop L F p fn c s w)) = files w
   \<and> network (snd (getProduct_loop L F p fn c s w)) = network w
   \<and> read_fault (snd (getProduct_loop L F p fn c s w)) = read_fault w
   \<and> write_fault (snd (getProduct_loop L F p fn c s w)) = write_fault w
   \<and> rename_fault (snd (getProduct_loop L F p fn c s w)) = rename_fault w
   \<and> clientIp (snd (getProduct_loop L F p fn c s w)) = clientIp w"
proof (induction L F p fn c s w rule: getProduct_loop.induct)
  case (1 L F p fn c s w)
  obtain fl w' where b: "getProduct_body L F p fn c s w = (fl, w')"
    by (cases "getProduct_body L F p fn c s w")
  then have w': "w' = snd (getProduct_body L F p fn c s w)" by simp
  show ?case
  proof (cases fl)
    case (Continue s')
    from "1.IH" [OF b [symmetric] Continue] loop_Continue [OF b [unfolded Continue]]
    show ?thesis by (simp add: w' getProduct_body_frame)
  next
    case (Break s')
    from loop_Break [OF b [unfolded Break]] show ?thesis
      by (simp add: w' getProduct_body_frame)
  next
    case (Leave out)
    from loop_Leave [OF b [unfolded Leave]] show ?thesis
      by (simp add: w' getProduct_body_frame)
  qed
qed

text \<open>
  The polls of the loop: at least one, at most \<open>6 - attempts\<close>, the first with the
  digest the loop starts with, every later one with the digest of what the reply
  before it decompressed to.
\<close>

lemma loop_sent:
  assumes "attempts s \<le> 5"
  shows "\<exists>ys. sent (snd (getProduct_loop L F p fn c s w)) = sent w @ ys
          \<and> ys \<noteq> [] \<and> int (length ys) \<le> 6 - attempts s
          \<and> (\<forall>j<length ys. ys ! j = poll_request F
                (if j = 0 then oldDigest s
                 else hex_EncodeToString (md5_Sum L (payload_of L (network w (length (sent w) + j - 1)))))
                p c)"
  using assms
proof (induction L F p fn c s w rule: getProduct_loop.induct)
  case (1 L F p fn c s w)
  obtain fl w' where b: "getProduct_body L F p fn c s w = (fl, w')"
    by (cases "getProduct_body L F p fn c s w")
  then have w': "w' = snd (getProduct_body L F p fn c s w)" by simp
  have sw': "sent w' = sent w @ [poll_request F (oldDigest s) p c]" and nw': "network w' = network w"
    by (simp_all add: w' getProduct_body_frame)
  show ?case
  proof (cases fl)
    case (Continue s')
    note f = body_Continue_facts [OF b [unfolded Continue]]
    from "1.IH" [OF b [symmetric] Continue] f(2)
    obtain ys where ys: "sent (snd (getProduct_loop L F p fn c s' w')) = sent w' @ ys"
      "ys \<noteq> []" "int (length ys) \<le> 6 - attempts s'"
      "\<forall>j<length ys. ys ! j = poll_request F
                (if j = 0 then oldDigest s'
                 else hex_EncodeToString (md5_Sum L (payload_of L (network w' (length (sent w') + j - 1)))))
                p c"
      by blast
    have l: "getProduct_loop L F p fn c s w = getProduct_loop L F p fn c s' w'"
      by (rule loop_Continue [OF b [unfolded Continue]])
    have "\<forall>j<length (poll_request F (oldDigest s) p c # ys).
            (poll_request F (oldDigest s) p c # ys) ! j = poll_request F
                (if j = 0 then oldDigest s
                 else hex_EncodeToString (md5_Sum L (payload_of L (network w (length (sent w) + j - 1)))))
                p c"
    proof (intro allI impI)
      fix j assume j: "j < length (poll_request F (oldDigest s) p c # ys)"
      show "(poll_request F (oldDigest s) p c # ys) ! j = poll_request F
                (if j = 0 then oldDigest s
                 else hex_EncodeToString (md5_Sum L (payload_of L (network w (length (sent w) + j - 1)))))
                p c"
      proof (cases j)
        case 0
        then show ?thesis by simp
      next
        case (Suc i)
        with j have i: "i < length ys" by simp
        show ?thesis
        proof (cases i)
          case 0
          with Suc ys(4) i f(5,6) show ?thesis by simp
        next
          case (Suc i')
          with \<open>j = Suc i\<close> ys(4) i show ?thesis by (simp add: sw' nw')
        qed
      qed
    qed
    with ys(1-3) f(1) show ?thesis
      by (intro exI [of _ "poll_request F (oldDigest s) p c # ys"]) (simp add: l sw')
  next
    case (Break s')
    from loop_Break [OF b [unfolded Break]] "1.prems" show ?thesis
      by (intro exI [of _ "[poll_request F (oldDigest s) p c]"]) (simp add: sw')
  next
    case (Leave out)
    from loop_Leave [OF b [unfolded Leave]] "1.prems" show ?thesis
      by (intro exI [of _ "[poll_request F (oldDigest s) p c]"]) (simp add: sw')
  qed
qed


lemma body_Malformed:
  "is_Malformed (network w (length (sent w))) \<Longrightarrow>
   fst (getProduct_body L F p fn c s w) = Leave (Returns (Some (Error ''Not a gzip file'')))"
  unfolding getProduct_body_fst
  by (auto simp: is_Malformed_def split: http_reply.splits sum.splits)

lemma body_NoUpdate:
  "is_NoUpdate (network w (length (sent w))) \<Longrightarrow>
   fst (getProduct_body L F p fn c s w)
     = (if length (uncompressed s) > 0 then Break s else Leave (Returns None))"
  unfolding getProduct_body_fst
  by (auto simp: is_NoUpdate_def split: http_reply.splits sum.splits)

lemma body_GzipPayload:
  "is_GzipPayload (network w (length (sent w))) \<Longrightarrow>
   fst (getProduct_body L F p fn c s w)
     = (if attempts s + 1 > 5
        then Leave (Returns (Some (Error ''Too many attempts at downloading file'')))
        else if decompresses L (network w (length (sent w)))
        then Continue \<lparr>oldDigest = hex_EncodeToString (md5_Sum L (payload_of L (network w (length (sent w))))),
                       attempts = attempts s + 1,
                       uncompressed = payload_of L (network w (length (sent w)))\<rparr>
        else fst (getProduct_body L F p fn c s w))"
  unfolding getProduct_body_fst
  by (auto simp: is_GzipPayload_def decompresses_def payload_of_def split: http_reply.splits sum.splits)

lemma kinds_disjoint:
  "is_GzipPayload r \<Longrightarrow> \<not> is_Malformed r"
  "is_GzipPayload r \<Longrightarrow> \<not> is_NoUpdate r"
  "is_NoUpdate r \<Longrightarrow> \<not> is_Malformed r"
  by (auto simp: is_GzipPayload_def is_Malformed_def is_NoUpdate_def
      split: http_reply.splits sum.splits)

lemma loop_malformed:
  assumes "length (sent w) \<le> k" "k < length (sent (snd (getProduct_loop L F p fn c s w)))"
    "is_Malformed (network w k)"
  shows "fst (getProduct_loop L F p fn c s w) = Inr (Returns (Some (Error ''Not a gzip file'')))"
  using assms
proof (induction L F p fn c s w rule: getProduct_loop.induct)
  case (1 L F p fn c s w)
  obtain fl w' where b: "getProduct_body L F p fn c s w = (fl, w')"
    by (cases "getProduct_body L F p fn c s w")
  then have w': "w' = snd (getProduct_body L F p fn c s w)" and fl: "fl = fst (getProduct_body L F p fn c s w)"
    by simp_all
  have sw': "sent w' = sent w @ [poll_request F (oldDigest s) p c]" and nw': "network w' = network w"
    by (simp_all add: w' getProduct_body_frame)
  show ?case
  proof (cases fl)
    case (Continue s')
    note f = body_Continue_facts [OF b [unfolded Continue]]
    have l: "getProduct_loop L F p fn c s w = getProduct_loop L F p fn c s' w'"
      by (rule loop_Continue [OF b [unfolded Continue]])
    from f(3) "1.prems"(3) have "k \<noteq> length (sent w)"
      using kinds_disjoint(1) by blast
    with "1.prems"(1) have "length (sent w') \<le> k" by (simp add: sw')
    from "1.IH" [OF b [symmetric] Continue this] "1.prems"(2,3) show ?thesis
      by (simp add: l nw')
  next
    case (Break s')
    from loop_Break [OF b [unfolded Break]] "1.prems"(1,2) have "k = length (sent w)"
      by (simp add: sw')
    with body_Malformed [of w L F p fn c s] "1.prems"(3) fl Break show ?thesis by simp
  next
    case (Leave out)
    from loop_Leave [OF b [unfolded Leave]] "1.prems"(1,2) have k: "k = length (sent w)"
      by (simp add: sw')
    with body_Malformed [of w L F p fn c s] "1.prems"(3) fl Leave
    have "out = Returns (Some (Error ''Not a gzip file''))" by simp
    with loop_Leave [OF b [unfolded Leave]] show ?thesis by simp
  qed
qed

lemma loop_gzip_run:
  assumes "attempts s \<le> 5"
    "\<forall>i < nat (6 - attempts s). is_GzipPayload (network w (length (sent w) + i))"
    "\<forall>i < nat (5 - attempts s). decompresses L (network w (length (sent w) + i))"
  shows "fst (getProduct_loop L F p fn c s w)
           = Inr (Returns (Some (Error ''Too many attempts at downloading file'')))
         \<and> length (sent (snd (getProduct_loop L F p fn c s w)))
           = length (sent w) + nat (6 - attempts s)"
  using assms
proof (induction L F p fn c s w rule: getProduct_loop.induct)
  case (1 L F p fn c s w)
  obtain fl w' where b: "getProduct_body L F p fn c s w = (fl, w')"
    by (cases "getProduct_body L F p fn c s w")
  then have w': "w' = snd (getProduct_body L F p fn c s w)" and fl: "fl = fst (getProduct_body L F p fn c s w)"
    by simp_all
  have sw': "sent w' = sent w @ [poll_request F (oldDigest s) p c]" and nw': "network w' = network w"
    by (simp_all add: w' getProduct_body_frame)
  have "0 < nat (6 - attempts s)" using "1.prems"(1) by simp
  with "1.prems"(2) have "is_GzipPayload (network w (length (sent w) + 0))" by blast
  then have g: "is_GzipPayload (network w (length (sent w)))" by simp
  show ?case
  proof (cases "attempts s = 5")
    case True
    with body_GzipPayload [OF g, of L F p fn c s] fl
    have "fl = Leave (Returns (Some (Error ''Too many attempts at downloading file'')))" by simp
    from loop_Leave [OF b [unfolded this]] True show ?thesis by (simp add: sw')
  next
    case False
    with "1.prems"(1) have lt: "attempts s < 5" by simp
    then have "0 < nat (5 - attempts s)" by simp
    with "1.prems"(3) have "decompresses L (network w (length (sent w) + 0))" by blast
    then have d: "decompresses L (network w (length (sent w)))" by simp
    define s' where "s' = \<lparr>oldDigest = hex_EncodeToString (md5_Sum L (payload_of L (network w (length (sent w))))),
                       attempts = attempts s + 1,
                       uncompressed = payload_of L (network w (length (sent w)))\<rparr>"
    from body_GzipPayload [OF g, of L F p fn c s] fl lt d have c: "fl = Continue s'"
      by (simp add: s'_def)
    have l: "getProduct_loop L F p fn c s w = getProduct_loop L F p fn c s' w'"
      by (rule loop_Continue [OF b [unfolded c]])
    have a': "attempts s' = attempts s + 1" by (simp add: s'_def)
    have h1: "attempts s' \<le> 5" using lt a' by simp
    have h2: "\<forall>i < nat (6 - attempts s'). is_GzipPayload (network w' (length (sent w') + i))"
    proof (intro allI impI)
      fix i assume "i < nat (6 - attempts s')"
      then have "Suc i < nat (6 - attempts s)" using a' by simp
      with "1.prems"(2) have "is_GzipPayload (network w (length (sent w) + Suc i))" by blast
      then show "is_GzipPayload (network w' (length (sent w') + i))" by (simp add: sw' nw')
    qed
    have h3: "\<forall>i < nat (5 - attempts s'). decompresses L (network w' (length (sent w') + i))"
    proof (intro allI impI)
      fix i assume "i < nat (5 - attempts s')"
      then have "Suc i < nat (5 - attempts s)" using a' by simp
      with "1.prems"(3) have "decompresses L (network w (length (sent w) + Suc i))" by blast
      then show "decompresses L (network w' (length (sent w') + i))" by (simp add: sw' nw')
    qed
    from "1.IH" [OF b [symmetric] c h1 h2 h3] lt show ?thesis
      by (simp add: l sw' a')
  qed
qed

section \<open>The success band\<close>

text \<open>
  Claim C6. \<^verbatim>\<open>isSuccess\<close> holds exactly for the status codes from 200 to 209. A poll
  (\<^verbatim>\<open>updateSecure\<close>) whose reply has a status in the band gives what reading the body
  gave; with a status outside the band it gives the error that carries the status text,
  and so do \<^verbatim>\<open>getProduct\<close> and \<^verbatim>\<open>getClientIp\<close> on their first reply.
\<close>

theorem isSuccess_band:
  assumes "network w (length (sent w)) = Reply res body"
  shows "(isSuccess (StatusCode res) \<longleftrightarrow> 200 \<le> StatusCode res \<and> StatusCode res \<le> 209)
    \<and> (200 \<le> StatusCode res \<and> StatusCode res \<le> 209 \<longrightarrow>
         fst (updateSecure F digest productId challenge w) = Returns body)
    \<and> (\<not> (200 \<le> StatusCode res \<and> StatusCode res \<le> 209) \<longrightarrow>
         fst (updateSecure F digest productId challenge w)
           = Returns (Inl (Error (''Status '' @ Status res @ '' received''))))
    \<and> (\<not> (200 \<le> StatusCode res \<and> StatusCode res \<le> 209) \<and> body = Inr data \<longrightarrow>
         fst (getProduct L F productId w)
           = Returns (Some (Error (''Status '' @ Status res @ '' received'')))
         \<and> fst (getClientIp F w)
           = Returns (Some (Error (''Status '' @ Status res @ '' received''))))"
proof -
  have a: "isSuccess (StatusCode res) \<longleftrightarrow> 200 \<le> StatusCode res \<and> StatusCode res \<le> 209"
    by (simp add: isSuccess_def)
  have b: "fst (updateSecure F digest productId challenge w) =
       Returns (if \<not> isSuccess (StatusCode res)
                then Inl (Error (''Status '' @ Status res @ '' received'')) else body)"
    using assms by (simp add: updateSecure_fst)
  have c: "fst (getProduct L F productId w)
           = Returns (Some (Error (''Status '' @ Status res @ '' received'')))"
    if "\<not> isSuccess (StatusCode res)" "body = Inr data"
    using that assms
    by (simp add: getProduct_def download_def http_Get_def)
  have d: "fst (getClientIp F w)
           = Returns (Some (Error (''Status '' @ Status res @ '' received'')))"
    if "\<not> isSuccess (StatusCode res)" "body = Inr data"
    using that assms
    by (simp add: getClientIp_def download_def http_Get_def)
  show ?thesis using a b c d by simp
qed

theorem isSuccess_band_witness:
  "fst (updateSecure default_flags ''d'' ''506'' ''c''
          (example_world (script [Reply \<lparr>StatusCode = 209, Status = ''209 Custom''\<rparr> (Inr ''body'')])))
     = Returns (Inr ''body'')
   \<and> fst (updateSecure default_flags ''d'' ''506'' ''c''
          (example_world (script [Reply \<lparr>StatusCode = 210, Status = ''210 Custom''\<rparr> (Inr ''body'')])))
     = Returns (Inl (Error ''Status 210 Custom received''))
   \<and> fst (getProduct example_lib default_flags ''506''
          (example_world (script [Reply \<lparr>StatusCode = 199, Status = ''199 Custom''\<rparr> (Inr ''body'')])))
     = Returns (Some (Error ''Status 199 Custom received''))"
proof -
  have n1: "network (example_world (script [Reply \<lparr>StatusCode = 209, Status = ''209 Custom''\<rparr> (Inr ''body'')]))
              (length (sent (example_world (script [Reply \<lparr>StatusCode = 209, Status = ''209 Custom''\<rparr> (Inr ''body'')]))))
            = Reply \<lparr>StatusCode = 209, Status = ''209 Custom''\<rparr> (Inr ''body'')"
    by (simp add: example_world_def script_def)
  have n2: "network (example_world (script [Reply \<lparr>StatusCode = 210, Status = ''210 Custom''\<rparr> (Inr ''body'')]))
              (length (sent (example_world (script [Reply \<lparr>StatusCode = 210, Status = ''210 Custom''\<rparr> (Inr ''body'')]))))
            = Reply \<lparr>StatusCode = 210, Status = ''210 Custom''\<rparr> (Inr ''body'')"
    by (simp add: example_world_def script_def)
  have n3: "network (example_world (script [Reply \<lparr>StatusCode = 199, Status = ''199 Custom''\<rparr> (Inr ''body'')]))
              (length (sent (example_world (script [Reply \<lparr>StatusCode = 199, Status = ''199 Custom''\<rparr> (Inr ''body'')]))))
            = Reply \<lparr>StatusCode = 199, Status = ''199 Custom''\<rparr> (Inr ''body'')"
    by (simp add: example_world_def script_def)
  show ?thesis
    using isSuccess_band [OF n1, of default_flags "''d''" "''506''" "''c''" "''body''" example_lib]
      isSuccess_band [OF n2, of default_flags "''d''" "''506''" "''c''" "''body''" example_lib]
      isSuccess_band [OF n3, of default_flags "''d''" "''506''" "''c''" "''body''" example_lib]
    by simp
qed


section \<open>The digest of a file\<close>

text \<open>
  Claim C8. \<^verbatim>\<open>md5File\<close> returns a string for every path and every world: the sentinel of
  32 zeros when the file is missing or cannot be read, and the hexadecimal encoding of the
  digest of the file's bytes when it can.
\<close>

theorem md5File_total:
  "(files w fn = None \<or> read_fault w fn \<noteq> None \<longrightarrow>
      md5File L fn w = ''00000000000000000000000000000000'')
   \<and> (\<forall>data. files w fn = Some data \<and> read_fault w fn = None \<longrightarrow>
      md5File L fn w = hex_EncodeToString (md5_Sum L data))"
  by (auto simp: md5File_def ioutil_ReadFile_def split: option.splits)

theorem md5File_total_witness:
  "md5File example_lib ''/usr/local/var/GeoIP/GeoIP.dat'' (example_world (script []))
     = ''00000000000000000000000000000000''
   \<and> md5File example_lib ''/usr/local/var/GeoIP/GeoIP.dat''
       ((example_world (script []))
          \<lparr>files := [''/usr/local/var/GeoIP/GeoIP.dat'' \<mapsto> ''old''],
           read_fault := (\<lambda>p. Some (Error ''permission denied''))\<rparr>)
     = ''00000000000000000000000000000000''
   \<and> md5File example_lib ''/usr/local/var/GeoIP/GeoIP.dat''
       ((example_world (script []))\<lparr>files := [''/usr/local/var/GeoIP/GeoIP.dat'' \<mapsto> ''old'']\<rparr>)
     = ''6f6c6400000000000000000000000000''"
proof -
  have h: "hex_EncodeToString (md5_Sum example_lib ''old'') = ''6f6c6400000000000000000000000000''"
    by code_simp
  show ?thesis
    using md5File_total [of "example_world (script [])" "''/usr/local/var/GeoIP/GeoIP.dat''" example_lib]
      md5File_total [of "(example_world (script []))
          \<lparr>files := [''/usr/local/var/GeoIP/GeoIP.dat'' \<mapsto> ''old''],
           read_fault := (\<lambda>p. Some (Error ''permission denied''))\<rparr>"
        "''/usr/local/var/GeoIP/GeoIP.dat''" example_lib]
      md5File_total [of "(example_world (script []))\<lparr>files := [''/usr/local/var/GeoIP/GeoIP.dat'' \<mapsto> ''old'']\<rparr>"
        "''/usr/local/var/GeoIP/GeoIP.dat''" example_lib]
      h
    by (simp add: example_world_def)
qed

section \<open>Publishing\<close>

lemma tmp_neq: "filePath @ ''.tmp'' \<noteq> filePath"
  by (metis append_self_conv list.distinct(1))

text \<open>
  Claim C3. The code after the loop writes the payload to the path with \<^verbatim>\<open>.tmp\<close>
  appended and renames that file to the path. When the write fails, or the write
  succeeds and the rename fails, \<^verbatim>\<open>getProduct\<close> returns that error and the file at the
  path is what it was (after a failed rename the temporary file stays behind); when
  both succeed the path holds the whole payload and the temporary file is gone. After
  the write alone the path is what it was; so at every step the path holds its old
  content or the whole payload.
\<close>

theorem publish_atomic:
  "(\<forall>err left. write_fault w (filePath @ ''.tmp'') payload = Some (err, left) \<longrightarrow>
      fst (getProduct_publish filePath payload w) = Returns (Some err)
      \<and> files (snd (getProduct_publish filePath payload w)) filePath = files w filePath)
   \<and> (\<forall>err. write_fault w (filePath @ ''.tmp'') payload = None
         \<and> rename_fault w (filePath @ ''.tmp'') filePath = Some err \<longrightarrow>
      fst (getProduct_publish filePath payload w) = Returns (Some err)
      \<and> files (snd (getProduct_publish filePath payload w)) = (files w)(filePath @ ''.tmp'' \<mapsto> payload)
      \<and> files (snd (getProduct_publish filePath payload w)) filePath = files w filePath)
   \<and> (write_fault w (filePath @ ''.tmp'') payload = None
         \<and> rename_fault w (filePath @ ''.tmp'') filePath = None \<longrightarrow>
      fst (getProduct_publish filePath payload w) = Returns None
      \<and> files (snd (getProduct_publish filePath payload w))
          = ((files w)(filePath @ ''.tmp'' := None))(filePath \<mapsto> payload))
   \<and> files (snd (ioutil_WriteFile (filePath @ ''.tmp'') payload w)) filePath = files w filePath
   \<and> (files (snd (getProduct_publish filePath payload w)) filePath = files w filePath
       \<or> files (snd (getProduct_publish filePath payload w)) filePath = Some payload)"
  using tmp_neq [of filePath]
  by (auto simp: getProduct_publish_def ioutil_WriteFile_def os_Rename_def Let_def
      split: option.splits prod.splits)

theorem publish_atomic_witness:
  "fst (getProduct_publish ''/d/GeoIP.dat'' ''new''
         ((example_world (script []))
            \<lparr>files := [''/d/GeoIP.dat'' \<mapsto> ''old''],
             write_fault := (\<lambda>p d. Some (Error ''no space left on device'', Some (take 1 d)))\<rparr>))
     = Returns (Some (Error ''no space left on device''))
   \<and> files (snd (getProduct_publish ''/d/GeoIP.dat'' ''new''
         ((example_world (script []))
            \<lparr>files := [''/d/GeoIP.dat'' \<mapsto> ''old''],
             write_fault := (\<lambda>p d. Some (Error ''no space left on device'', Some (take 1 d)))\<rparr>)))
       ''/d/GeoIP.dat'' = Some ''old''
   \<and> fst (getProduct_publish ''/d/GeoIP.dat'' ''new''
         ((example_world (script []))
            \<lparr>files := [''/d/GeoIP.dat'' \<mapsto> ''old''],
             rename_fault := (\<lambda>p q. Some (Error ''permission denied''))\<rparr>))
     = Returns (Some (Error ''permission denied''))
   \<and> files (snd (getProduct_publish ''/d/GeoIP.dat'' ''new''
         ((example_world (script []))
            \<lparr>files := [''/d/GeoIP.dat'' \<mapsto> ''old''],
             rename_fault := (\<lambda>p q. Some (Error ''permission denied''))\<rparr>)))
       ''/d/GeoIP.dat'' = Some ''old''
   \<and> fst (getProduct_publish ''/d/GeoIP.dat'' ''new''
         ((example_world (script []))\<lparr>files := [''/d/GeoIP.dat'' \<mapsto> ''old'']\<rparr>))
     = Returns None
   \<and> files (snd (getProduct_publish ''/d/GeoIP.dat'' ''new''
         ((example_world (script []))\<lparr>files := [''/d/GeoIP.dat'' \<mapsto> ''old'']\<rparr>)))
       ''/d/GeoIP.dat'' = Some ''new''"
  using
    publish_atomic [of "(example_world (script []))
            \<lparr>files := [''/d/GeoIP.dat'' \<mapsto> ''old''],
             write_fault := (\<lambda>p d. Some (Error ''no space left on device'', Some (take 1 d)))\<rparr>"
      "''/d/GeoIP.dat''" "''new''"]
    publish_atomic [of "(example_world (script []))
            \<lparr>files := [''/d/GeoIP.dat'' \<mapsto> ''old''],
             rename_fault := (\<lambda>p q. Some (Error ''permission denied''))\<rparr>"
      "''/d/GeoIP.dat''" "''new''"]
    publish_atomic [of "(example_world (script []))\<lparr>files := [''/d/GeoIP.dat'' \<mapsto> ''old'']\<rparr>"
      "''/d/GeoIP.dat''" "''new''"]
  by (simp add: example_world_def)

section \<open>The random delay\<close>

lemma mask63: "(0x7fffffffffffffff :: 64 word) = mask 63"
  by (simp add: mask_eq_exp_minus_1)

lemma sint_and_nonneg: "0 \<le> sint ((x::64 word) AND 0x7fffffffffffffff)"
proof -
  have "\<not> bit (x AND mask 63) 63"
    by (simp add: bit_and_iff bit_mask_iff)
  then show ?thesis
    by (simp add: mask63 sint_uint bit_uint_iff)
qed

lemma sint_word_of_int_small:
  assumes "0 \<le> m" "m < sint (mx :: 64 word)"
  shows "sint (word_of_int m :: 64 word) = m"
proof -
  have "sint mx < 2 ^ 63" using sint_lt [of mx] by simp
  with assms have "- (2 ^ 63) \<le> m" "m < 2 ^ 63" by simp_all
  then show ?thesis
    by (simp add: sint_sbintrunc' signed_take_bit_int_eq_self)
qed

lemma randInt64_range:
  assumes "rand_fault w = None" "0 < sint mx"
  shows "\<exists>r. fst (randInt64 mx w) = Returns r \<and> 0 \<le> sint r \<and> sint r < sint mx"
proof -
  define data where
    "data = BigEndian_Uint64 (map (\<lambda>i. entropy w (drawn w + i)) [0..<8]) AND 0x7fffffffffffffff"
  have nz: "mx \<noteq> 0" using assms(2) by auto
  have d: "0 \<le> sint data" unfolding data_def by (rule sint_and_nonneg)
  have m: "sint data smod sint mx = sint data mod sint mx"
    using d assms(2) by (simp add: smod_mod_positive)
  have r: "fst (randInt64 mx w) = Returns (word_of_int (sint data mod sint mx))"
    using assms(1) nz m by (simp add: randInt64_def rand_Read_def Let_def data_def)
  have "0 \<le> sint data mod sint mx" "sint data mod sint mx < sint mx"
    using assms(2) by simp_all
  then show ?thesis using r sint_word_of_int_small [of "sint data mod sint mx" mx] by simp
qed

lemma randInt64_zero: "rand_fault w = None \<Longrightarrow> fst (randInt64 0 w) = Panics"
  by (simp add: randInt64_def rand_Read_def Let_def)

lemma main_delay_zero:
  assumes "rand_fault w = None" "randomDelay F \<noteq> []" "ParseDuration L (randomDelay F) = Inr 0"
  shows "fst (main L F w) = Panics"
proof -
  obtain out w1 where r: "randInt64 0 w = (out, w1)"
    by (cases "randInt64 0 w")
  with randInt64_zero [OF assms(1)] have "out = Panics" by simp
  with r assms(2,3) have "main_delay L F w = (Panics, w1)"
    by (simp add: main_delay_def)
  then show ?thesis by (simp add: main_def)
qed

text \<open>
  Claim C10. With \<^verbatim>\<open>rand.Read\<close> working, \<^verbatim>\<open>randInt64\<close> returns a value from 0 up to,
  but not including, a bound that is positive; with the bound 0 it panics (the
  remainder by zero); and \<^verbatim>\<open>main\<close> panics when the \<^verbatim>\<open>randomdelay\<close> flag is a
  non-empty string that parses to the duration 0.
\<close>

theorem randInt64_positive_bound:
  assumes "rand_fault w = None"
  shows "(0 < sint mx \<longrightarrow>
           (\<exists>r. fst (randInt64 mx w) = Returns r \<and> 0 \<le> sint r \<and> sint r < sint mx))
    \<and> fst (randInt64 0 w) = Panics
    \<and> (randomDelay F \<noteq> [] \<and> ParseDuration L (randomDelay F) = Inr 0 \<longrightarrow>
         fst (main L F w) = Panics)"
  using assms randInt64_range [of w mx] randInt64_zero [of w] main_delay_zero [of w F L]
  by blast

theorem randInt64_positive_bound_witness:
  "(\<exists>r. fst (randInt64 1000000000 (example_world (script []))) = Returns r
        \<and> 0 \<le> sint r \<and> sint r < 1000000000)
   \<and> fst (randInt64 0 (example_world (script []))) = Panics
   \<and> fst (main example_lib (default_flags\<lparr>randomDelay := ''0s''\<rparr>) (example_world (script [])))
       = Panics"
proof -
  have h: "rand_fault (example_world (script [])) = None"
    by (simp add: example_world_def)
  show ?thesis
    using randInt64_positive_bound [OF h, of 1000000000 "default_flags\<lparr>randomDelay := ''0s''\<rparr>" example_lib]
    by (simp add: example_lib_def default_flags_def)
qed

section \<open>A session\<close>

lemma publish_frame:
  "sent (snd (getProduct_publish fp payload w)) = sent w"
  "network (snd (getProduct_publish fp payload w)) = network w"
  "logged (snd (getProduct_publish fp payload w)) = logged w"
  by (auto simp: getProduct_publish_def ioutil_WriteFile_def os_Rename_def Let_def
      split: option.splits prod.splits)

lemma start_frame:
  "files (getProduct_start L F p name w) = files w"
  "network (getProduct_start L F p name w) = network w"
  "read_fault (getProduct_start L F p name w) = read_fault w"
  "write_fault (getProduct_start L F p name w) = write_fault w"
  "rename_fault (getProduct_start L F p name w) = rename_fault w"
  "clientIp (getProduct_start L F p name w) = clientIp w"
  "sent (getProduct_start L F p name w) = sent w @ [getfilename_request F p]"
  "logged (getProduct_start L F p name w) = logged w @ [Attempting_to_update (path_Base L name)]"
  by (simp_all add: getProduct_start_def)

text \<open>\<^verbatim>\<open>getProduct\<close> once its first reply is in: the loop, then the code after it.\<close>

lemma getProduct_started:
  assumes "network w (length (sent w)) = Reply res (Inr name)" "isSuccess (StatusCode res)"
  shows "getProduct L F p w =
     (case getProduct_loop L F p (path_Base L name) (getProduct_challenge L F w)
             (getProduct_init L F name w) (getProduct_start L F p name w) of
        (Inr out, w3) \<Rightarrow> (out, w3)
      | (Inl s, w3) \<Rightarrow> getProduct_publish (getProduct_filePath L F name) (uncompressed s) w3)"
proof -
  have m: "md5File L fp (w\<lparr>sent := x, logged := y\<rparr>) = md5File L fp w" for fp x y
    by (simp add: md5File_def ioutil_ReadFile_def split: option.splits)
  show ?thesis
    unfolding getProduct_challenge_def getProduct_init_def getProduct_start_def
      getProduct_filePath_def getfilename_request_def
    using assms download_ok [OF assms(1), of F "''/app/update_getfilename''"]
    by (simp add: getProduct_def Let_def m log_Printf_def)
qed

text \<open>\<^verbatim>\<open>getProduct\<close> when its first reply ends it: one request, no file touched.\<close>

lemma getProduct_not_started:
  assumes "\<not> (\<exists>res name. network w (length (sent w)) = Reply res (Inr name) \<and> isSuccess (StatusCode res))"
  shows "sent (snd (getProduct L F p w)) = sent w @ [getfilename_request F p]"
    "files (snd (getProduct L F p w)) = files w"
proof -
  have "getProduct L F p w = (fst (getProduct L F p w),
          snd (download F ''/app/update_getfilename'' [''product_id'' \<mapsto> p] w))"
  proof (cases "network w (length (sent w))")
    case (GetError err)
    then show ?thesis by (simp add: getProduct_def download_def http_Get_def)
  next
    case (Reply res body)
    show ?thesis
    proof (cases body)
      case (Inl err)
      with Reply show ?thesis by (simp add: getProduct_def download_def http_Get_def Let_def)
    next
      case (Inr name)
      with Reply assms have "\<not> isSuccess (StatusCode res)" by simp
      with Reply Inr show ?thesis by (simp add: getProduct_def download_def http_Get_def)
    qed
  qed
  then have g: "snd (getProduct L F p w)
      = snd (download F ''/app/update_getfilename'' [''product_id'' \<mapsto> p] w)"
    by (metis snd_conv)
  show "sent (snd (getProduct L F p w)) = sent w @ [getfilename_request F p]"
    "files (snd (getProduct L F p w)) = files w"
    unfolding g by (simp_all add: download_frame getfilename_request_def)
qed

lemma getProduct_sent:
  "\<exists>ys. sent (snd (getProduct L F p w)) = sent w @ getfilename_request F p # ys \<and> length ys \<le> 6"
proof (cases "\<exists>res name. network w (length (sent w)) = Reply res (Inr name) \<and> isSuccess (StatusCode res)")
  case False
  from getProduct_not_started(1) [OF this] show ?thesis by simp
next
  case True
  then obtain res name where a: "network w (length (sent w)) = Reply res (Inr name)"
    "isSuccess (StatusCode res)" by blast
  let ?lp = "getProduct_loop L F p (path_Base L name) (getProduct_challenge L F w)
             (getProduct_init L F name w) (getProduct_start L F p name w)"
  have "attempts (getProduct_init L F name w) \<le> 5" by (simp add: getProduct_init_def)
  from loop_sent [OF this, of L F p "path_Base L name" "getProduct_challenge L F w" "getProduct_start L F p name w"]
  obtain ys where ys: "sent (snd ?lp) = sent w @ getfilename_request F p # ys" "length ys \<le> 6"
    by (auto simp: start_frame getProduct_init_def)
  have "sent (snd (getProduct L F p w)) = sent (snd ?lp)"
    unfolding getProduct_started [OF a]
    by (cases ?lp) (auto simp: publish_frame split: sum.splits)
  with ys show ?thesis by simp
qed

section \<open>A malformed reply\<close>

text \<open>
  Claim C5. Take any reply to a poll of a session (any request of \<^verbatim>\<open>getProduct\<close> after
  its first) that \<^verbatim>\<open>updateSecure\<close> hands to the loop and whose body starts neither with
  the text \<^verbatim>\<open>No new updates available\<close> nor with the two bytes of the gzip magic
  number. Then \<^verbatim>\<open>getProduct\<close> returns the error \<^verbatim>\<open>Not a gzip file\<close>, and no file was
  written: the files are what they were.
\<close>

theorem malformed_reply_fails:
  assumes "length (sent w) < k" "k < length (sent (snd (getProduct L F productId w)))"
    "is_Malformed (network w k)"
  shows "fst (getProduct L F productId w) = Returns (Some (Error ''Not a gzip file''))
         \<and> files (snd (getProduct L F productId w)) = files w"
proof (cases "\<exists>res name. network w (length (sent w)) = Reply res (Inr name) \<and> isSuccess (StatusCode res)")
  case False
  from getProduct_not_started(1) [OF this, of L F productId] assms(1,2) show ?thesis by simp
next
  case True
  then obtain res name where a: "network w (length (sent w)) = Reply res (Inr name)"
    "isSuccess (StatusCode res)" by blast
  let ?lp = "getProduct_loop L F productId (path_Base L name) (getProduct_challenge L F w)
             (getProduct_init L F name w) (getProduct_start L F productId name w)"
  obtain r w3 where lp: "?lp = (r, w3)" by (cases ?lp)
  have s: "sent (snd (getProduct L F productId w)) = sent (snd ?lp)"
    unfolding getProduct_started [OF a]
    by (cases ?lp) (auto simp: publish_frame split: sum.splits)
  have "fst ?lp = Inr (Returns (Some (Error ''Not a gzip file'')))"
    using assms
    by (intro loop_malformed [of _ k]) (simp_all add: s start_frame)
  with lp have r: "r = Inr (Returns (Some (Error ''Not a gzip file'')))" by simp
  have "files w3 = files w"
    using loop_frame [of L F productId "path_Base L name" "getProduct_challenge L F w"
        "getProduct_init L F name w" "getProduct_start L F productId name w"] lp
    by (simp add: start_frame)
  then show ?thesis
    unfolding getProduct_started [OF a] lp r by simp
qed

theorem malformed_reply_fails_witness:
  "is_Malformed (network html_after_update 2)
   \<and> fst (getProduct example_lib default_flags ''506'' html_after_update)
       = Returns (Some (Error ''Not a gzip file''))
   \<and> files (snd (getProduct example_lib default_flags ''506'' html_after_update)) = Map.empty"
proof -
  have h1: "length (sent html_after_update) < 2"
    by (simp add: html_after_update_def example_world_def)
  have h2: "2 < length (sent (snd (getProduct example_lib default_flags ''506'' html_after_update)))"
    by code_simp
  have h3: "is_Malformed (network html_after_update 2)"
    by code_simp
  have f: "files html_after_update = Map.empty"
    by (simp add: html_after_update_def example_world_def)
  from malformed_reply_fails [OF h1 h2 h3] h3 f show ?thesis by simp
qed

section \<open>The bound on the rounds\<close>

lemma rounds_attempts:
  assumes "attempts s \<le> 5"
  shows "int (length (getProduct_rounds L F p fn c s w)) \<le> 6 - attempts s
         \<and> (\<forall>i < length (getProduct_rounds L F p fn c s w).
               attempts (fst (getProduct_rounds L F p fn c s w ! i)) = attempts s + int i)"
  using assms
proof (induction L F p fn c s w rule: getProduct_rounds.induct)
  case (1 L F p fn c s w)
  obtain fl w' where b: "getProduct_body L F p fn c s w = (fl, w')"
    by (cases "getProduct_body L F p fn c s w")
  show ?case
  proof (cases fl)
    case (Continue s')
    note f = body_Continue_facts [OF b [unfolded Continue]]
    note r = rounds_Continue [OF b [unfolded Continue]]
    from "1.IH" [OF b [symmetric] Continue f(2)]
    have ih: "int (length (getProduct_rounds L F p fn c s' w')) \<le> 6 - attempts s'"
      "\<forall>i < length (getProduct_rounds L F p fn c s' w').
         attempts (fst (getProduct_rounds L F p fn c s' w' ! i)) = attempts s' + int i"
      by simp_all
    have "attempts (fst (((s, w) # getProduct_rounds L F p fn c s' w') ! i)) = attempts s + int i"
      if "i < length ((s, w) # getProduct_rounds L F p fn c s' w')" for i
    proof (cases i)
      case 0
      then show ?thesis by simp
    next
      case (Suc j)
      with that ih(2) f(1) show ?thesis by simp
    qed
    with ih(1) f(1) show ?thesis unfolding r by simp
  next
    case (Break s')
    from rounds_Break [OF b [unfolded Break]] "1.prems" show ?thesis by simp
  next
    case (Leave out)
    from rounds_Leave [OF b [unfolded Leave]] "1.prems" show ?thesis by simp
  qed
qed

lemma getProduct_six_gzip:
  assumes a: "network w (length (sent w)) = Reply res (Inr name)" "isSuccess (StatusCode res)"
    and g: "\<forall>i\<in>{1..6}. is_GzipPayload (network w (length (sent w) + i))"
    and d: "\<forall>i\<in>{1..5}. decompresses L (network w (length (sent w) + i))"
  shows "fst (getProduct L F p w) = Returns (Some (Error ''Too many attempts at downloading file''))"
    "files (snd (getProduct L F p w)) = files w"
    "length (sent (snd (getProduct L F p w))) = length (sent w) + 7"
proof -
  let ?s = "getProduct_init L F name w" and ?w = "getProduct_start L F p name w"
  let ?lp = "getProduct_loop L F p (path_Base L name) (getProduct_challenge L F w) ?s ?w"
  have a0: "attempts ?s = 0" by (simp add: getProduct_init_def)
  have h1: "attempts ?s \<le> 5" by (simp add: a0)
  have h2: "\<forall>i < nat (6 - attempts ?s). is_GzipPayload (network ?w (length (sent ?w) + i))"
  proof (intro allI impI)
    fix i assume "i < nat (6 - attempts ?s)"
    then have "Suc i \<in> {1..6}" by (simp add: a0)
    with g have "is_GzipPayload (network w (length (sent w) + Suc i))" by blast
    then show "is_GzipPayload (network ?w (length (sent ?w) + i))" by (simp add: start_frame)
  qed
  have h3: "\<forall>i < nat (5 - attempts ?s). decompresses L (network ?w (length (sent ?w) + i))"
  proof (intro allI impI)
    fix i assume "i < nat (5 - attempts ?s)"
    then have "Suc i \<in> {1..5}" by (simp add: a0)
    with d have "decompresses L (network w (length (sent w) + Suc i))" by blast
    then show "decompresses L (network ?w (length (sent ?w) + i))" by (simp add: start_frame)
  qed
  obtain r w3 where lp: "?lp = (r, w3)" by (cases ?lp)
  from loop_gzip_run [OF h1 h2 h3, of F p "path_Base L name" "getProduct_challenge L F w"] lp
  have r: "r = Inr (Returns (Some (Error ''Too many attempts at downloading file'')))"
    and n: "length (sent w3) = length (sent w) + 7"
    by (simp_all add: a0 start_frame)
  have f: "files w3 = files w"
    using loop_frame [of L F p "path_Base L name" "getProduct_challenge L F w" ?s ?w] lp
    by (simp add: start_frame)
  show "fst (getProduct L F p w) = Returns (Some (Error ''Too many attempts at downloading file''))"
    "files (snd (getProduct L F p w)) = files w"
    "length (sent (snd (getProduct L F p w))) = length (sent w) + 7"
    unfolding getProduct_started [OF a] lp r using f n by simp_all
qed

text \<open>
  Claim C1. In a session whose first six polls are all answered with a gzip payload
  (the first five of which decompress, so that the session gets as far as the sixth),
  \<^verbatim>\<open>getProduct\<close> returns the error \<^verbatim>\<open>Too many attempts at downloading file\<close> and has
  written no file. And whatever the server answers, a session sends at most six polls
  (seven requests with the first), and the loop is entered at most six times, the
  counter \<^verbatim>\<open>attempts\<close> being 0, 1, ... at the successive entries: every entry after the
  first follows one decompressed payload, so at most five payloads are decompressed.
  The loop is the total function \<open>getProduct_loop\<close>: it always ends.
\<close>

theorem too_many_rounds:
  "(network w (length (sent w)) = Reply res (Inr name) \<and> isSuccess (StatusCode res)
      \<and> (\<forall>i\<in>{1..6}. is_GzipPayload (network w (length (sent w) + i)))
      \<and> (\<forall>i\<in>{1..5}. decompresses L (network w (length (sent w) + i)))
    \<longrightarrow> fst (getProduct L F productId w)
          = Returns (Some (Error ''Too many attempts at downloading file''))
        \<and> files (snd (getProduct L F productId w)) = files w
        \<and> length (sent (snd (getProduct L F productId w))) = length (sent w) + 7)
   \<and> length (sent (snd (getProduct L F productId w))) \<le> length (sent w) + 7
   \<and> length (getProduct_rounds L F productId fn c (getProduct_init L F name w) w0) \<le> 6
   \<and> (\<forall>i < length (getProduct_rounds L F productId fn c (getProduct_init L F name w) w0).
         attempts (fst (getProduct_rounds L F productId fn c (getProduct_init L F name w) w0 ! i))
           = int i)"
proof -
  have "attempts (getProduct_init L F name w) \<le> 5" by (simp add: getProduct_init_def)
  from rounds_attempts [OF this, of L F productId fn c w0]
  have r: "length (getProduct_rounds L F productId fn c (getProduct_init L F name w) w0) \<le> 6"
    "\<forall>i < length (getProduct_rounds L F productId fn c (getProduct_init L F name w) w0).
         attempts (fst (getProduct_rounds L F productId fn c (getProduct_init L F name w) w0 ! i))
           = int i"
    by (simp_all add: getProduct_init_def)
  from getProduct_sent [of L F productId w]
  have s: "length (sent (snd (getProduct L F productId w))) \<le> length (sent w) + 7"
    by auto
  show ?thesis
    using r s getProduct_six_gzip [of w res name L F productId] by blast
qed

theorem too_many_rounds_witness:
  "fst (getProduct example_lib default_flags ''506'' (example_world endless_updates))
     = Returns (Some (Error ''Too many attempts at downloading file''))
   \<and> files (snd (getProduct example_lib default_flags ''506'' (example_world endless_updates)))
       = Map.empty
   \<and> length (sent (snd (getProduct example_lib default_flags ''506'' (example_world endless_updates))))
       = 7
   \<and> length (getProduct_rounds example_lib default_flags ''506'' ''GeoIP.dat'' ''c''
         (getProduct_init example_lib default_flags ''GeoIP.dat'' (example_world endless_updates))
         (getProduct_start example_lib default_flags ''506'' ''GeoIP.dat'' (example_world endless_updates)))
       = 6
   \<and> attempts (fst (getProduct_rounds example_lib default_flags ''506'' ''GeoIP.dat'' ''c''
         (getProduct_init example_lib default_flags ''GeoIP.dat'' (example_world endless_updates))
         (getProduct_start example_lib default_flags ''506'' ''GeoIP.dat'' (example_world endless_updates))
         ! 5))
       = 5"
proof -
  let ?w = "example_world endless_updates"
  let ?rs = "getProduct_rounds example_lib default_flags ''506'' ''GeoIP.dat'' ''c''
         (getProduct_init example_lib default_flags ''GeoIP.dat'' ?w)
         (getProduct_start example_lib default_flags ''506'' ''GeoIP.dat'' ?w)"
  have h1: "network ?w (length (sent ?w))
              = Reply \<lparr>StatusCode = 200, Status = ''200 OK''\<rparr> (Inr ''GeoIP.dat'')"
    by (simp add: example_world_def endless_updates_def ok_def)
  have h2: "isSuccess (StatusCode \<lparr>StatusCode = 200, Status = ''200 OK''\<rparr>)"
    by (simp add: isSuccess_def)
  have h3: "\<forall>i\<in>{1..6}. is_GzipPayload (network ?w (length (sent ?w) + i))"
    by (simp add: example_world_def endless_updates_def ok_def gz_def is_GzipPayload_def
        isSuccess_def bytes_HasPrefix_def)
  have h4: "\<forall>i\<in>{1..5}. decompresses example_lib (network ?w (length (sent ?w) + i))"
    by (simp add: example_world_def endless_updates_def ok_def gz_def decompresses_def
        gunzip_def example_lib_def)
  have h5: "length ?rs = 6"
    by code_simp
  note t = too_many_rounds [of ?w "\<lparr>StatusCode = 200, Status = ''200 OK''\<rparr>" "''GeoIP.dat''"
      example_lib default_flags "''506''" "''GeoIP.dat''" "''c''"
      "getProduct_start example_lib default_flags ''506'' ''GeoIP.dat'' ?w"]
  from t h5 have "attempts (fst (?rs ! 5)) = 5" by simp
  with t h1 h2 h3 h4 h5 show ?thesis by (simp add: example_world_def)
qed

section \<open>Stepping through a session\<close>

lemma body_gzip_exact:
  assumes "is_GzipPayload (network w (length (sent w)))"
    "decompresses L (network w (length (sent w)))" "attempts s < 5"
  shows "getProduct_body L F p fn c s w =
     (Continue \<lparr>oldDigest = hex_EncodeToString (md5_Sum L (payload_of L (network w (length (sent w))))),
                attempts = attempts s + 1,
                uncompressed = payload_of L (network w (length (sent w)))\<rparr>,
      w\<lparr>sent := sent w @ [poll_request F (oldDigest s) p c]\<rparr>)"
proof -
  from assms(1) obtain res data where r: "network w (length (sent w)) = Reply res (Inr data)"
    "isSuccess (StatusCode res)" "\<not> bytes_HasPrefix data ''No new updates available''"
    "bytes_HasPrefix data [CHR 0x1F, CHR 0x8B]"
    by (auto simp: is_GzipPayload_def split: http_reply.splits sum.splits)
  from assms(2) r(1) obtain u where u: "gunzip L data = Inr u"
    by (auto simp: decompresses_def split: sum.splits)
  then have p: "payload_of L (network w (length (sent w))) = u"
    by (simp add: payload_of_def r(1))
  from u obtain gzr x where g: "gzip_NewReader L data = Inr gzr" "gzip_ReadAll L gzr = (u, None)"
    by (auto simp: gunzip_def split: sum.splits prod.splits option.splits)
  show ?thesis
    unfolding p
    using updateSecure_ok [OF r(1,2), of F "oldDigest s" p c] r(3,4) g assms(3)
    by (simp add: getProduct_body_def Let_def)
qed

lemma body_noupdate_exact:
  assumes "is_NoUpdate (network w (length (sent w)))"
  shows "getProduct_body L F p fn c s w =
     (if uncompressed s \<noteq> []
      then (Break s, w\<lparr>sent := sent w @ [poll_request F (oldDigest s) p c],
                       logged := logged w @ [Update_retrieved fn]\<rparr>)
      else (Leave (Returns None), w\<lparr>sent := sent w @ [poll_request F (oldDigest s) p c],
                       logged := logged w @ [No_new_updates fn]\<rparr>))"
proof -
  from assms obtain res data where r: "network w (length (sent w)) = Reply res (Inr data)"
    "isSuccess (StatusCode res)" "bytes_HasPrefix data ''No new updates available''"
    by (auto simp: is_NoUpdate_def split: http_reply.splits sum.splits)
  show ?thesis
    using updateSecure_ok [OF r(1,2), of F "oldDigest s" p c] r(3)
    by (simp add: getProduct_body_def log_Printf_def)
qed

lemma loop_step_gzip:
  assumes "is_GzipPayload (network w (length (sent w)))"
    "decompresses L (network w (length (sent w)))" "attempts s < 5"
  shows "getProduct_loop L F p fn c s w =
     getProduct_loop L F p fn c
       \<lparr>oldDigest = hex_EncodeToString (md5_Sum L (payload_of L (network w (length (sent w))))),
        attempts = attempts s + 1,
        uncompressed = payload_of L (network w (length (sent w)))\<rparr>
       (w\<lparr>sent := sent w @ [poll_request F (oldDigest s) p c]\<rparr>)"
  by (rule loop_Continue [OF body_gzip_exact [OF assms]])

lemma rounds_step_gzip:
  assumes "is_GzipPayload (network w (length (sent w)))"
    "decompresses L (network w (length (sent w)))" "attempts s < 5"
  shows "getProduct_rounds L F p fn c s w =
     (s, w) # getProduct_rounds L F p fn c
       \<lparr>oldDigest = hex_EncodeToString (md5_Sum L (payload_of L (network w (length (sent w))))),
        attempts = attempts s + 1,
        uncompressed = payload_of L (network w (length (sent w)))\<rparr>
       (w\<lparr>sent := sent w @ [poll_request F (oldDigest s) p c]\<rparr>)"
  by (rule rounds_Continue [OF body_gzip_exact [OF assms]])

lemma loop_step_noupdate:
  assumes "is_NoUpdate (network w (length (sent w)))"
  shows "getProduct_loop L F p fn c s w =
     (if uncompressed s \<noteq> []
      then (Inl s, w\<lparr>sent := sent w @ [poll_request F (oldDigest s) p c],
                     logged := logged w @ [Update_retrieved fn]\<rparr>)
      else (Inr (Returns None), w\<lparr>sent := sent w @ [poll_request F (oldDigest s) p c],
                     logged := logged w @ [No_new_updates fn]\<rparr>))"
proof (cases "uncompressed s \<noteq> []")
  case True
  with body_noupdate_exact [OF assms, of L F p fn c s] show ?thesis
    by (simp add: loop_Break)
next
  case False
  with body_noupdate_exact [OF assms, of L F p fn c s] show ?thesis
    by (simp add: loop_Leave)
qed

lemma rounds_step_noupdate:
  assumes "is_NoUpdate (network w (length (sent w)))"
  shows "getProduct_rounds L F p fn c s w = [(s, w)]"
proof (cases "uncompressed s \<noteq> []")
  case True
  with body_noupdate_exact [OF assms, of L F p fn c s] show ?thesis
    by (simp add: rounds_Break)
next
  case False
  with body_noupdate_exact [OF assms, of L F p fn c s] show ?thesis
    by (simp add: rounds_Leave)
qed

section \<open>Two payloads, then no update\<close>

lemma loop_gzip_gzip_noupdate:
  assumes r1: "is_GzipPayload (network w (length (sent w)))"
      "decompresses L (network w (length (sent w)))"
      "payload_of L (network w (length (sent w))) = u1"
    and r2: "is_GzipPayload (network w (length (sent w) + 1))"
      "decompresses L (network w (length (sent w) + 1))"
      "payload_of L (network w (length (sent w) + 1)) = u2"
    and r3: "is_NoUpdate (network w (length (sent w) + 2))"
    and s: "attempts s = 0"
  shows "getProduct_loop L F p fn c s w =
     (if u2 \<noteq> []
      then (Inl \<lparr>oldDigest = hex_EncodeToString (md5_Sum L u2), attempts = 2, uncompressed = u2\<rparr>,
            w\<lparr>sent := sent w @ [poll_request F (oldDigest s) p c,
                                 poll_request F (hex_EncodeToString (md5_Sum L u1)) p c,
                                 poll_request F (hex_EncodeToString (md5_Sum L u2)) p c],
              logged := logged w @ [Update_retrieved fn]\<rparr>)
      else (Inr (Returns None),
            w\<lparr>sent := sent w @ [poll_request F (oldDigest s) p c,
                                 poll_request F (hex_EncodeToString (md5_Sum L u1)) p c,
                                 poll_request F (hex_EncodeToString (md5_Sum L u2)) p c],
              logged := logged w @ [No_new_updates fn]\<rparr>))"
    and "map (\<lambda>(s', w'). (attempts s', uncompressed s')) (getProduct_rounds L F p fn c s w)
           = [(0, uncompressed s), (1, u1), (2, u2)]"
proof -
  let ?s1 = "\<lparr>oldDigest = hex_EncodeToString (md5_Sum L u1), attempts = 1, uncompressed = u1\<rparr>"
  let ?w1 = "w\<lparr>sent := sent w @ [poll_request F (oldDigest s) p c]\<rparr>"
  let ?s2 = "\<lparr>oldDigest = hex_EncodeToString (md5_Sum L u2), attempts = 2, uncompressed = u2\<rparr>"
  let ?w2 = "?w1\<lparr>sent := sent ?w1 @ [poll_request F (oldDigest ?s1) p c]\<rparr>"
  have a1: "is_GzipPayload (network ?w1 (length (sent ?w1)))" "decompresses L (network ?w1 (length (sent ?w1)))"
    "payload_of L (network ?w1 (length (sent ?w1))) = u2"
    using r2 by simp_all
  have a2: "is_NoUpdate (network ?w2 (length (sent ?w2)))"
    using r3 by simp
  have l1: "getProduct_loop L F p fn c s w = getProduct_loop L F p fn c ?s1 ?w1"
    using loop_step_gzip [OF r1(1,2), of s F p fn c] s r1(3) by simp
  have l2: "getProduct_loop L F p fn c ?s1 ?w1 = getProduct_loop L F p fn c ?s2 ?w2"
    using loop_step_gzip [OF a1(1,2), of ?s1 F p fn c] a1(3) by simp
  show "getProduct_loop L F p fn c s w =
     (if u2 \<noteq> []
      then (Inl \<lparr>oldDigest = hex_EncodeToString (md5_Sum L u2), attempts = 2, uncompressed = u2\<rparr>,
            w\<lparr>sent := sent w @ [poll_request F (oldDigest s) p c,
                                 poll_request F (hex_EncodeToString (md5_Sum L u1)) p c,
                                 poll_request F (hex_EncodeToString (md5_Sum L u2)) p c],
              logged := logged w @ [Update_retrieved fn]\<rparr>)
      else (Inr (Returns None),
            w\<lparr>sent := sent w @ [poll_request F (oldDigest s) p c,
                                 poll_request F (hex_EncodeToString (md5_Sum L u1)) p c,
                                 poll_request F (hex_EncodeToString (md5_Sum L u2)) p c],
              logged := logged w @ [No_new_updates fn]\<rparr>))"
    unfolding l1 l2 loop_step_noupdate [OF a2] by simp
  have q1: "getProduct_rounds L F p fn c s w = (s, w) # getProduct_rounds L F p fn c ?s1 ?w1"
    using rounds_step_gzip [OF r1(1,2), of s F p fn c] s r1(3) by simp
  have q2: "getProduct_rounds L F p fn c ?s1 ?w1 = (?s1, ?w1) # getProduct_rounds L F p fn c ?s2 ?w2"
    using rounds_step_gzip [OF a1(1,2), of ?s1 F p fn c] a1(3) by simp
  show "map (\<lambda>(s', w'). (attempts s', uncompressed s')) (getProduct_rounds L F p fn c s w)
           = [(0, uncompressed s), (1, u1), (2, u2)]"
    unfolding q1 q2 rounds_step_noupdate [OF a2] using s by simp
qed

lemma publish_files:
  "files (snd (getProduct_publish fp u w)) fp = files w fp
   \<or> files (snd (getProduct_publish fp u w)) fp = Some u"
  using tmp_neq [of fp]
  by (auto simp: getProduct_publish_def ioutil_WriteFile_def os_Rename_def Let_def
      split: option.splits prod.splits)

lemma publish_ok:
  assumes "write_fault w (fp @ ''.tmp'') u = None" "rename_fault w (fp @ ''.tmp'') fp = None"
  shows "getProduct_publish fp u w
           = (Returns None, w\<lparr>files := ((files w)(fp @ ''.tmp'' := None))(fp \<mapsto> u)\<rparr>)"
  using assms
  by (simp add: getProduct_publish_def ioutil_WriteFile_def os_Rename_def Let_def)

text \<open>
  Claim C2. In a session whose polls are answered with a gzip payload, a second gzip
  payload and then \<^verbatim>\<open>No new updates available\<close> (both payloads decompressing, to \<open>u1\<close>
  and \<open>u2\<close>), the loop is entered three times, with \<^verbatim>\<open>attempts\<close> and
  \<^verbatim>\<open>uncompressed\<close> being 0 and empty, 1 and \<open>u1\<close>, 2 and \<open>u2\<close>: two rounds, the second
  payload in place of the first. Three polls are sent. When \<open>u2\<close> is not empty and
  the write and the rename work, \<^verbatim>\<open>getProduct\<close> returns \<^verbatim>\<open>nil\<close> and the file holds
  exactly \<open>u2\<close>. In every case the file holds what it held or exactly \<open>u2\<close>.
\<close>

theorem latest_payload_published:
  assumes start: "network w (length (sent w)) = Reply res (Inr name)" "isSuccess (StatusCode res)"
    and r1: "is_GzipPayload (network w (length (sent w) + 1))"
      "decompresses L (network w (length (sent w) + 1))"
      "payload_of L (network w (length (sent w) + 1)) = u1"
    and r2: "is_GzipPayload (network w (length (sent w) + 2))"
      "decompresses L (network w (length (sent w) + 2))"
      "payload_of L (network w (length (sent w) + 2)) = u2"
    and r3: "is_NoUpdate (network w (length (sent w) + 3))"
  shows "map (\<lambda>(s', w'). (attempts s', uncompressed s'))
           (getProduct_rounds L F productId (path_Base L name) (getProduct_challenge L F w)
              (getProduct_init L F name w) (getProduct_start L F productId name w))
         = [(0, []), (1, u1), (2, u2)]
    \<and> sent (snd (getProduct L F productId w)) =
        sent w @ [getfilename_request F productId,
                  poll_request F (md5File L (getProduct_filePath L F name) w) productId
                    (getProduct_challenge L F w),
                  poll_request F (hex_EncodeToString (md5_Sum L u1)) productId
                    (getProduct_challenge L F w),
                  poll_request F (hex_EncodeToString (md5_Sum L u2)) productId
                    (getProduct_challenge L F w)]
    \<and> (u2 \<noteq> [] \<and> write_fault w (getProduct_filePath L F name @ ''.tmp'') u2 = None
        \<and> rename_fault w (getProduct_filePath L F name @ ''.tmp'') (getProduct_filePath L F name) = None
       \<longrightarrow> fst (getProduct L F productId w) = Returns None
           \<and> files (snd (getProduct L F productId w))
               = ((files w)(getProduct_filePath L F name @ ''.tmp'' := None))
                   (getProduct_filePath L F name \<mapsto> u2))
    \<and> (files (snd (getProduct L F productId w)) (getProduct_filePath L F name)
          = files w (getProduct_filePath L F name)
        \<or> files (snd (getProduct L F productId w)) (getProduct_filePath L F name) = Some u2)"
proof -
  let ?s = "getProduct_init L F name w" and ?w = "getProduct_start L F productId name w"
  let ?c = "getProduct_challenge L F w" and ?fp = "getProduct_filePath L F name"
  let ?fn = "path_Base L name"
  have b1: "is_GzipPayload (network ?w (length (sent ?w)))"
    "decompresses L (network ?w (length (sent ?w)))"
    "payload_of L (network ?w (length (sent ?w))) = u1"
    using r1 by (simp_all add: start_frame)
  have b2: "is_GzipPayload (network ?w (length (sent ?w) + 1))"
    "decompresses L (network ?w (length (sent ?w) + 1))"
    "payload_of L (network ?w (length (sent ?w) + 1)) = u2"
    using r2 by (simp_all add: start_frame numeral_2_eq_2)
  have b3: "is_NoUpdate (network ?w (length (sent ?w) + 2))"
    using r3 by (simp add: start_frame numeral_3_eq_3 numeral_2_eq_2)
  have s0: "attempts ?s = 0" "uncompressed ?s = []" "oldDigest ?s = md5File L ?fp w"
    by (simp_all add: getProduct_init_def)
  note lp = loop_gzip_gzip_noupdate(1) [OF b1 b2 b3 s0(1), of F productId ?fn ?c]
  note rs = loop_gzip_gzip_noupdate(2) [OF b1 b2 b3 s0(1), of F productId ?fn ?c]
  have g: "getProduct L F productId w =
     (if u2 \<noteq> []
      then getProduct_publish ?fp u2
            (?w\<lparr>sent := sent ?w @ [poll_request F (oldDigest ?s) productId ?c,
                                 poll_request F (hex_EncodeToString (md5_Sum L u1)) productId ?c,
                                 poll_request F (hex_EncodeToString (md5_Sum L u2)) productId ?c],
              logged := logged ?w @ [Update_retrieved ?fn]\<rparr>)
      else (Returns None,
            ?w\<lparr>sent := sent ?w @ [poll_request F (oldDigest ?s) productId ?c,
                                 poll_request F (hex_EncodeToString (md5_Sum L u1)) productId ?c,
                                 poll_request F (hex_EncodeToString (md5_Sum L u2)) productId ?c],
              logged := logged ?w @ [No_new_updates ?fn]\<rparr>))"
    unfolding getProduct_started [OF start] lp by simp
  have c1: "map (\<lambda>(s', w'). (attempts s', uncompressed s'))
           (getProduct_rounds L F productId ?fn ?c ?s ?w) = [(0, []), (1, u1), (2, u2)]"
    using rs s0(2) by simp
  have c2: "sent (snd (getProduct L F productId w)) =
        sent w @ [getfilename_request F productId, poll_request F (md5File L ?fp w) productId ?c,
                  poll_request F (hex_EncodeToString (md5_Sum L u1)) productId ?c,
                  poll_request F (hex_EncodeToString (md5_Sum L u2)) productId ?c]"
    unfolding g by (simp add: publish_frame start_frame s0)
  have c3: "fst (getProduct L F productId w) = Returns None
           \<and> files (snd (getProduct L F productId w)) = ((files w)(?fp @ ''.tmp'' := None))(?fp \<mapsto> u2)"
    if "u2 \<noteq> []" "write_fault w (?fp @ ''.tmp'') u2 = None" "rename_fault w (?fp @ ''.tmp'') ?fp = None"
    unfolding g using that by (simp add: publish_ok start_frame)
  have c4: "files (snd (getProduct L F productId w)) ?fp = files w ?fp
        \<or> files (snd (getProduct L F productId w)) ?fp = Some u2"
  proof (cases "u2 \<noteq> []")
    case True
    define w3 where "w3 = ?w\<lparr>sent := sent ?w @ [poll_request F (oldDigest ?s) productId ?c,
                                 poll_request F (hex_EncodeToString (md5_Sum L u1)) productId ?c,
                                 poll_request F (hex_EncodeToString (md5_Sum L u2)) productId ?c],
              logged := logged ?w @ [Update_retrieved ?fn]\<rparr>"
    have "files w3 = files w" by (simp add: w3_def start_frame)
    with publish_files [of ?fp u2 w3] True show ?thesis
      unfolding g w3_def [symmetric] by simp
  next
    case False
    then show ?thesis unfolding g by (simp add: start_frame)
  qed
  from c1 c2 c3 c4 show ?thesis by blast
qed

theorem latest_payload_published_witness:
  "fst (getProduct example_lib default_flags ''506'' two_updates) = Returns None
   \<and> files (snd (getProduct example_lib default_flags ''506'' two_updates))
       = [''/usr/local/var/GeoIP/GeoIP.dat'' \<mapsto> ''BBB'']
   \<and> length (sent (snd (getProduct example_lib default_flags ''506'' two_updates))) = 4"
proof -
  have h: "network two_updates (length (sent two_updates))
             = Reply \<lparr>StatusCode = 200, Status = ''200 OK''\<rparr> (Inr ''GeoIP.dat'')"
    "isSuccess (StatusCode \<lparr>StatusCode = 200, Status = ''200 OK''\<rparr>)"
    "is_GzipPayload (network two_updates (length (sent two_updates) + 1))"
    "decompresses example_lib (network two_updates (length (sent two_updates) + 1))"
    "payload_of example_lib (network two_updates (length (sent two_updates) + 1)) = ''AAA''"
    "is_GzipPayload (network two_updates (length (sent two_updates) + 2))"
    "decompresses example_lib (network two_updates (length (sent two_updates) + 2))"
    "payload_of example_lib (network two_updates (length (sent two_updates) + 2)) = ''BBB''"
    "is_NoUpdate (network two_updates (length (sent two_updates) + 3))"
    by (simp_all add: two_updates_def example_world_def script_def ok_def gz_def isSuccess_def
        is_GzipPayload_def is_NoUpdate_def decompresses_def payload_of_def gunzip_def
        example_lib_def bytes_HasPrefix_def)
  have p: "getProduct_filePath example_lib default_flags ''GeoIP.dat''
             = ''/usr/local/var/GeoIP/GeoIP.dat''"
    by (simp add: getProduct_filePath_def example_lib_def default_flags_def)
  have f: "write_fault two_updates = (\<lambda>p d. None)" "rename_fault two_updates = (\<lambda>p q. None)"
    "files two_updates = Map.empty" "sent two_updates = []"
    by (simp_all add: two_updates_def example_world_def)
  from latest_payload_published [OF h, of default_flags "''506''"]
  show ?thesis by (simp add: p f)
qed

section \<open>One payload, then no update\<close>

lemma loop_gzip_noupdate:
  assumes r1: "is_GzipPayload (network w (length (sent w)))"
      "decompresses L (network w (length (sent w)))"
      "payload_of L (network w (length (sent w))) = u1"
    and r2: "is_NoUpdate (network w (length (sent w) + 1))"
    and s: "attempts s = 0"
  shows "getProduct_loop L F p fn c s w =
     (if u1 \<noteq> []
      then (Inl \<lparr>oldDigest = hex_EncodeToString (md5_Sum L u1), attempts = 1, uncompressed = u1\<rparr>,
            w\<lparr>sent := sent w @ [poll_request F (oldDigest s) p c,
                                 poll_request F (hex_EncodeToString (md5_Sum L u1)) p c],
              logged := logged w @ [Update_retrieved fn]\<rparr>)
      else (Inr (Returns None),
            w\<lparr>sent := sent w @ [poll_request F (oldDigest s) p c,
                                 poll_request F (hex_EncodeToString (md5_Sum L u1)) p c],
              logged := logged w @ [No_new_updates fn]\<rparr>))"
    and "map (\<lambda>(s', w'). (attempts s', oldDigest s', uncompressed s')) (getProduct_rounds L F p fn c s w)
           = [(0, oldDigest s, uncompressed s), (1, hex_EncodeToString (md5_Sum L u1), u1)]"
proof -
  let ?s1 = "\<lparr>oldDigest = hex_EncodeToString (md5_Sum L u1), attempts = 1, uncompressed = u1\<rparr>"
  let ?w1 = "w\<lparr>sent := sent w @ [poll_request F (oldDigest s) p c]\<rparr>"
  have a1: "is_NoUpdate (network ?w1 (length (sent ?w1)))"
    using r2 by simp
  have l1: "getProduct_loop L F p fn c s w = getProduct_loop L F p fn c ?s1 ?w1"
    using loop_step_gzip [OF r1(1,2), of s F p fn c] s r1(3) by simp
  show "getProduct_loop L F p fn c s w =
     (if u1 \<noteq> []
      then (Inl \<lparr>oldDigest = hex_EncodeToString (md5_Sum L u1), attempts = 1, uncompressed = u1\<rparr>,
            w\<lparr>sent := sent w @ [poll_request F (oldDigest s) p c,
                                 poll_request F (hex_EncodeToString (md5_Sum L u1)) p c],
              logged := logged w @ [Update_retrieved fn]\<rparr>)
      else (Inr (Returns None),
            w\<lparr>sent := sent w @ [poll_request F (oldDigest s) p c,
                                 poll_request F (hex_EncodeToString (md5_Sum L u1)) p c],
              logged := logged w @ [No_new_updates fn]\<rparr>))"
    unfolding l1 loop_step_noupdate [OF a1] by simp
  have q1: "getProduct_rounds L F p fn c s w = (s, w) # getProduct_rounds L F p fn c ?s1 ?w1"
    using rounds_step_gzip [OF r1(1,2), of s F p fn c] s r1(3) by simp
  show "map (\<lambda>(s', w'). (attempts s', oldDigest s', uncompressed s')) (getProduct_rounds L F p fn c s w)
           = [(0, oldDigest s, uncompressed s), (1, hex_EncodeToString (md5_Sum L u1), u1)]"
    unfolding q1 rounds_step_noupdate [OF a1] using s by simp
qed

text \<open>
  Claim C9. What the loop does at \<^verbatim>\<open>No new updates available\<close> depends on the length of
  \<^verbatim>\<open>uncompressed\<close> only. In a session whose first poll is answered with a gzip payload
  that decompresses to \<open>u1\<close> and whose second poll is answered with
  \<^verbatim>\<open>No new updates available\<close>, the loop is entered twice, the second time with
  \<^verbatim>\<open>attempts\<close> 1 and the digest of \<open>u1\<close> (which the second poll carries). When \<open>u1\<close>
  has no bytes, \<^verbatim>\<open>getProduct\<close> then logs \<^verbatim>\<open>No new updates available for\<close> the file,
  returns \<^verbatim>\<open>nil\<close> and writes no file; otherwise it goes on to the code after the loop.
\<close>

theorem empty_payload_not_published:
  assumes start: "network w (length (sent w)) = Reply res (Inr name)" "isSuccess (StatusCode res)"
    and r1: "is_GzipPayload (network w (length (sent w) + 1))"
      "decompresses L (network w (length (sent w) + 1))"
      "payload_of L (network w (length (sent w) + 1)) = u1"
    and r2: "is_NoUpdate (network w (length (sent w) + 2))"
  shows "map (\<lambda>(s', w'). (attempts s', oldDigest s', uncompressed s'))
           (getProduct_rounds L F productId (path_Base L name) (getProduct_challenge L F w)
              (getProduct_init L F name w) (getProduct_start L F productId name w))
         = [(0, md5File L (getProduct_filePath L F name) w, []),
            (1, hex_EncodeToString (md5_Sum L u1), u1)]
    \<and> getProduct L F productId w =
        (if u1 \<noteq> []
         then getProduct_publish (getProduct_filePath L F name) u1
                (w\<lparr>sent := sent w @ [getfilename_request F productId,
                        poll_request F (md5File L (getProduct_filePath L F name) w) productId
                          (getProduct_challenge L F w),
                        poll_request F (hex_EncodeToString (md5_Sum L u1)) productId
                          (getProduct_challenge L F w)],
                   logged := logged w @ [Attempting_to_update (path_Base L name),
                                         Update_retrieved (path_Base L name)]\<rparr>)
         else (Returns None,
               w\<lparr>sent := sent w @ [getfilename_request F productId,
                        poll_request F (md5File L (getProduct_filePath L F name) w) productId
                          (getProduct_challenge L F w),
                        poll_request F (hex_EncodeToString (md5_Sum L u1)) productId
                          (getProduct_challenge L F w)],
                  logged := logged w @ [Attempting_to_update (path_Base L name),
                                        No_new_updates (path_Base L name)]\<rparr>))
    \<and> (u1 = [] \<longrightarrow> fst (getProduct L F productId w) = Returns None
                  \<and> files (snd (getProduct L F productId w)) = files w)"
proof -
  let ?s = "getProduct_init L F name w" and ?w = "getProduct_start L F productId name w"
  let ?c = "getProduct_challenge L F w" and ?fp = "getProduct_filePath L F name"
  let ?fn = "path_Base L name"
  have b1: "is_GzipPayload (network ?w (length (sent ?w)))"
    "decompresses L (network ?w (length (sent ?w)))"
    "payload_of L (network ?w (length (sent ?w))) = u1"
    using r1 by (simp_all add: start_frame)
  have b2: "is_NoUpdate (network ?w (length (sent ?w) + 1))"
    using r2 by (simp add: start_frame numeral_2_eq_2)
  have s0: "attempts ?s = 0" "uncompressed ?s = []" "oldDigest ?s = md5File L ?fp w"
    by (simp_all add: getProduct_init_def)
  note lp = loop_gzip_noupdate(1) [OF b1 b2 s0(1), of F productId ?fn ?c]
  note rs = loop_gzip_noupdate(2) [OF b1 b2 s0(1), of F productId ?fn ?c]
  have c1: "map (\<lambda>(s', w'). (attempts s', oldDigest s', uncompressed s'))
           (getProduct_rounds L F productId ?fn ?c ?s ?w)
         = [(0, md5File L ?fp w, []), (1, hex_EncodeToString (md5_Sum L u1), u1)]"
    using rs s0(2,3) by simp
  have c2: "getProduct L F productId w =
        (if u1 \<noteq> []
         then getProduct_publish ?fp u1
                (w\<lparr>sent := sent w @ [getfilename_request F productId,
                        poll_request F (md5File L ?fp w) productId ?c,
                        poll_request F (hex_EncodeToString (md5_Sum L u1)) productId ?c],
                   logged := logged w @ [Attempting_to_update ?fn, Update_retrieved ?fn]\<rparr>)
         else (Returns None,
               w\<lparr>sent := sent w @ [getfilename_request F productId,
                        poll_request F (md5File L ?fp w) productId ?c,
                        poll_request F (hex_EncodeToString (md5_Sum L u1)) productId ?c],
                  logged := logged w @ [Attempting_to_update ?fn, No_new_updates ?fn]\<rparr>))"
    unfolding getProduct_started [OF start] lp by (simp add: s0 getProduct_start_def)
  have c3: "fst (getProduct L F productId w) = Returns None
                  \<and> files (snd (getProduct L F productId w)) = files w" if "u1 = []"
    unfolding c2 using that by simp
  from c1 c2 c3 show ?thesis by blast
qed

theorem empty_payload_not_published_witness:
  "fst (getProduct example_lib default_flags ''506'' empty_update) = Returns None
   \<and> files (snd (getProduct example_lib default_flags ''506'' empty_update)) = Map.empty
   \<and> logged (snd (getProduct example_lib default_flags ''506'' empty_update))
       = [Attempting_to_update ''GeoIP.dat'', No_new_updates ''GeoIP.dat'']
   \<and> length (sent (snd (getProduct example_lib default_flags ''506'' empty_update))) = 3"
proof -
  have h: "network empty_update (length (sent empty_update))
             = Reply \<lparr>StatusCode = 200, Status = ''200 OK''\<rparr> (Inr ''GeoIP.dat'')"
    "isSuccess (StatusCode \<lparr>StatusCode = 200, Status = ''200 OK''\<rparr>)"
    "is_GzipPayload (network empty_update (length (sent empty_update) + 1))"
    "decompresses example_lib (network empty_update (length (sent empty_update) + 1))"
    "payload_of example_lib (network empty_update (length (sent empty_update) + 1)) = []"
    "is_NoUpdate (network empty_update (length (sent empty_update) + 2))"
    by (simp_all add: empty_update_def example_world_def script_def ok_def gz_def isSuccess_def
        is_GzipPayload_def is_NoUpdate_def decompresses_def payload_of_def gunzip_def
        example_lib_def bytes_HasPrefix_def)
  have f: "files empty_update = Map.empty" "sent empty_update = []" "logged empty_update = []"
    "path_Base example_lib ''GeoIP.dat'' = ''GeoIP.dat''"
    by (simp_all add: empty_update_def example_world_def example_lib_def)
  from empty_payload_not_published [OF h, of default_flags "''506''"]
  show ?thesis by (simp add: f)
qed

section \<open>The digest that is polled with\<close>

lemma rounds_first: "getProduct_rounds L F p fn c s w ! 0 = (s, w)"
  by (subst getProduct_rounds.simps) simp

lemma rounds_digest:
  "\<forall>i < length (getProduct_rounds L F p fn c s w). 0 < i \<longrightarrow>
      oldDigest (fst (getProduct_rounds L F p fn c s w ! i))
        = hex_EncodeToString (md5_Sum L (uncompressed (fst (getProduct_rounds L F p fn c s w ! i))))
      \<and> uncompressed (fst (getProduct_rounds L F p fn c s w ! i))
        = payload_of L (network w (length (sent w) + i - 1))"
proof (induction L F p fn c s w rule: getProduct_rounds.induct)
  case (1 L F p fn c s w)
  obtain fl w' where b: "getProduct_body L F p fn c s w = (fl, w')"
    by (cases "getProduct_body L F p fn c s w")
  show ?case
  proof (cases fl)
    case (Continue s')
    note f = body_Continue_facts [OF b [unfolded Continue]]
    note r = rounds_Continue [OF b [unfolded Continue]]
    have sw': "sent w' = sent w @ [poll_request F (oldDigest s) p c]" and nw': "network w' = network w"
      by (simp_all add: f(7) getProduct_body_frame)
    note ih = "1.IH" [OF b [symmetric] Continue]
    show ?thesis
      unfolding r
    proof (intro allI impI)
      fix i assume i: "i < length ((s, w) # getProduct_rounds L F p fn c s' w')" "0 < i"
      then obtain j where j: "i = Suc j" "j < length (getProduct_rounds L F p fn c s' w')"
        by (cases i) simp_all
      show "oldDigest (fst (((s, w) # getProduct_rounds L F p fn c s' w') ! i))
              = hex_EncodeToString (md5_Sum L (uncompressed (fst (((s, w) # getProduct_rounds L F p fn c s' w') ! i))))
            \<and> uncompressed (fst (((s, w) # getProduct_rounds L F p fn c s' w') ! i))
              = payload_of L (network w (length (sent w) + i - 1))"
      proof (cases j)
        case 0
        with j f(5,6) show ?thesis by (simp add: rounds_first)
      next
        case (Suc j')
        with j ih show ?thesis by (simp add: sw' nw')
      qed
    qed
  next
    case (Break s')
    from rounds_Break [OF b [unfolded Break]] show ?thesis by simp
  next
    case (Leave out)
    from rounds_Leave [OF b [unfolded Leave]] show ?thesis by simp
  qed
qed

lemma getProduct_polls:
  assumes "length (sent w) < k" "k < length (sent (snd (getProduct L F p w)))"
    "network w (length (sent w)) = Reply res (Inr name)"
  shows "sent (snd (getProduct L F p w)) ! k =
     poll_request F
       (if k = length (sent w) + 1 then md5File L (getProduct_filePath L F name) w
        else hex_EncodeToString (md5_Sum L (payload_of L (network w (k - 1)))))
       p (getProduct_challenge L F w)"
proof (cases "isSuccess (StatusCode res)")
  case False
  with assms(3) have "\<not> (\<exists>res name. network w (length (sent w)) = Reply res (Inr name) \<and> isSuccess (StatusCode res))"
    by simp
  from getProduct_not_started(1) [OF this, of L F p] assms(1,2) show ?thesis by simp
next
  case True
  let ?s = "getProduct_init L F name w" and ?w = "getProduct_start L F p name w"
  let ?c = "getProduct_challenge L F w"
  let ?lp = "getProduct_loop L F p (path_Base L name) ?c ?s ?w"
  have e: "sent (snd (getProduct L F p w)) = sent (snd ?lp)"
    unfolding getProduct_started [OF assms(3) True]
    by (cases ?lp) (auto simp: publish_frame split: sum.splits)
  have "attempts ?s \<le> 5" by (simp add: getProduct_init_def)
  from loop_sent [OF this, of L F p "path_Base L name" ?c ?w]
  obtain ys where ys: "sent (snd ?lp) = sent ?w @ ys"
    "\<forall>j<length ys. ys ! j = poll_request F
                (if j = 0 then oldDigest ?s
                 else hex_EncodeToString (md5_Sum L (payload_of L (network ?w (length (sent ?w) + j - 1)))))
                p ?c"
    by blast
  define j where "j = k - length (sent w) - 1"
  have k: "k = length (sent w) + 1 + j" using assms(1) by (simp add: j_def)
  have jl: "j < length ys" using assms(2) unfolding e ys(1) k by (simp add: start_frame)
  have "sent (snd (getProduct L F p w)) ! k = ys ! j"
    unfolding e ys(1) k by (simp add: start_frame nth_append)
  also have "\<dots> = poll_request F
                (if j = 0 then oldDigest ?s
                 else hex_EncodeToString (md5_Sum L (payload_of L (network ?w (length (sent ?w) + j - 1)))))
                p ?c"
    using ys(2) jl by blast
  also have "\<dots> = poll_request F
       (if k = length (sent w) + 1 then md5File L (getProduct_filePath L F name) w
        else hex_EncodeToString (md5_Sum L (payload_of L (network w (k - 1)))))
       p ?c"
    unfolding k by (simp add: start_frame getProduct_init_def)
  finally show ?thesis .
qed


text \<open>
  Claim C7. Take a session whose first reply had its body read. Each time the loop is
  entered, \<^verbatim>\<open>oldDigest\<close> is the digest of the last payload taken: at the first entry it
  is what \<^verbatim>\<open>md5File\<close> gave for the file (the sentinel when there is no file) and
  \<^verbatim>\<open>uncompressed\<close> is empty; at every later entry \<^verbatim>\<open>uncompressed\<close> is what the reply
  to the poll before decompressed to and \<^verbatim>\<open>oldDigest\<close> is the hexadecimal digest of
  exactly these bytes. The pass that starts there polls with this \<^verbatim>\<open>oldDigest\<close>. So
  the polls that \<^verbatim>\<open>getProduct\<close> sends carry, in \<^verbatim>\<open>db_md5\<close>, the digest of the file
  first and then the digest of the payload of the reply just before.
\<close>

theorem digest_tracks_payload:
  assumes "network w (length (sent w)) = Reply res (Inr name)"
  shows "(\<forall>i < length (getProduct_rounds L F productId (path_Base L name) (getProduct_challenge L F w)
                       (getProduct_init L F name w) (getProduct_start L F productId name w)).
           (i = 0 \<longrightarrow>
              oldDigest (fst (getProduct_rounds L F productId (path_Base L name) (getProduct_challenge L F w)
                       (getProduct_init L F name w) (getProduct_start L F productId name w) ! i))
                = md5File L (getProduct_filePath L F name) w
              \<and> uncompressed (fst (getProduct_rounds L F productId (path_Base L name) (getProduct_challenge L F w)
                       (getProduct_init L F name w) (getProduct_start L F productId name w) ! i))
                = [])
         \<and> (0 < i \<longrightarrow>
              oldDigest (fst (getProduct_rounds L F productId (path_Base L name) (getProduct_challenge L F w)
                       (getProduct_init L F name w) (getProduct_start L F productId name w) ! i))
                = hex_EncodeToString (md5_Sum L
                    (uncompressed (fst (getProduct_rounds L F productId (path_Base L name) (getProduct_challenge L F w)
                       (getProduct_init L F name w) (getProduct_start L F productId name w) ! i))))
              \<and> uncompressed (fst (getProduct_rounds L F productId (path_Base L name) (getProduct_challenge L F w)
                       (getProduct_init L F name w) (getProduct_start L F productId name w) ! i))
                = payload_of L (network w (length (sent w) + i))))
    \<and> sent (snd (getProduct_body L F productId fn c s w0))
        = sent w0 @ [poll_request F (oldDigest s) productId c]
    \<and> (\<forall>k. length (sent w) < k \<and> k < length (sent (snd (getProduct L F productId w))) \<longrightarrow>
          sent (snd (getProduct L F productId w)) ! k =
            poll_request F
              (if k = length (sent w) + 1 then md5File L (getProduct_filePath L F name) w
               else hex_EncodeToString (md5_Sum L (payload_of L (network w (k - 1)))))
              productId (getProduct_challenge L F w))
    \<and> (files w (getProduct_filePath L F name) = None \<longrightarrow>
          md5File L (getProduct_filePath L F name) w = ''00000000000000000000000000000000'')"
proof -
  let ?rs = "getProduct_rounds L F productId (path_Base L name) (getProduct_challenge L F w)
                       (getProduct_init L F name w) (getProduct_start L F productId name w)"
  have a: "(i = 0 \<longrightarrow> oldDigest (fst (?rs ! i)) = md5File L (getProduct_filePath L F name) w
              \<and> uncompressed (fst (?rs ! i)) = [])
         \<and> (0 < i \<longrightarrow> oldDigest (fst (?rs ! i))
                = hex_EncodeToString (md5_Sum L (uncompressed (fst (?rs ! i))))
              \<and> uncompressed (fst (?rs ! i)) = payload_of L (network w (length (sent w) + i)))"
    if "i < length ?rs" for i
  proof (cases i)
    case 0
    then show ?thesis by (simp add: rounds_first getProduct_init_def)
  next
    case (Suc j)
    with that rounds_digest [of L F productId "path_Base L name" "getProduct_challenge L F w"
        "getProduct_init L F name w" "getProduct_start L F productId name w"]
    show ?thesis by (simp add: start_frame)
  qed
  have b: "sent (snd (getProduct_body L F productId fn c s w0))
        = sent w0 @ [poll_request F (oldDigest s) productId c]"
    by (rule getProduct_body_frame)
  have c: "sent (snd (getProduct L F productId w)) ! k =
            poll_request F
              (if k = length (sent w) + 1 then md5File L (getProduct_filePath L F name) w
               else hex_EncodeToString (md5_Sum L (payload_of L (network w (k - 1)))))
              productId (getProduct_challenge L F w)"
    if "length (sent w) < k" "k < length (sent (snd (getProduct L F productId w)))" for k
    using that assms by (rule getProduct_polls)
  have d: "md5File L (getProduct_filePath L F name) w = ''00000000000000000000000000000000''"
    if "files w (getProduct_filePath L F name) = None"
    using that by (simp add: md5File_def ioutil_ReadFile_def)
  from a b c d show ?thesis by blast
qed

theorem digest_tracks_payload_witness:
  "oldDigest (fst (getProduct_rounds example_lib default_flags ''506'' ''GeoIP.dat''
        (getProduct_challenge example_lib default_flags two_updates)
        (getProduct_init example_lib default_flags ''GeoIP.dat'' two_updates)
        (getProduct_start example_lib default_flags ''506'' ''GeoIP.dat'' two_updates) ! 0))
     = ''00000000000000000000000000000000''
   \<and> uncompressed (fst (getProduct_rounds example_lib default_flags ''506'' ''GeoIP.dat''
        (getProduct_challenge example_lib default_flags two_updates)
        (getProduct_init example_lib default_flags ''GeoIP.dat'' two_updates)
        (getProduct_start example_lib default_flags ''506'' ''GeoIP.dat'' two_updates) ! 2))
     = ''BBB''
   \<and> oldDigest (fst (getProduct_rounds example_lib default_flags ''506'' ''GeoIP.dat''
        (getProduct_challenge example_lib default_flags two_updates)
        (getProduct_init example_lib default_flags ''GeoIP.dat'' two_updates)
        (getProduct_start example_lib default_flags ''506'' ''GeoIP.dat'' two_updates) ! 2))
     = ''42424200000000000000000000000000''
   \<and> sent (snd (getProduct example_lib default_flags ''506'' two_updates)) ! 1
     = poll_request default_flags ''00000000000000000000000000000000'' ''506''
         (getProduct_challenge example_lib default_flags two_updates)
   \<and> sent (snd (getProduct example_lib default_flags ''506'' two_updates)) ! 3
     = poll_request default_flags ''42424200000000000000000000000000'' ''506''
         (getProduct_challenge example_lib default_flags two_updates)"
proof -
  let ?rs = "getProduct_rounds example_lib default_flags ''506'' ''GeoIP.dat''
        (getProduct_challenge example_lib default_flags two_updates)
        (getProduct_init example_lib default_flags ''GeoIP.dat'' two_updates)
        (getProduct_start example_lib default_flags ''506'' ''GeoIP.dat'' two_updates)"
  have h: "network two_updates (length (sent two_updates))
             = Reply \<lparr>StatusCode = 200, Status = ''200 OK''\<rparr> (Inr ''GeoIP.dat'')"
    by (simp add: two_updates_def example_world_def script_def ok_def)
  have l: "length ?rs = 3"
    by code_simp
  have n: "length (sent (snd (getProduct example_lib default_flags ''506'' two_updates))) = 4"
    by code_simp
  have p: "payload_of example_lib (network two_updates 2) = ''BBB''"
    "payload_of example_lib (network two_updates (Suc (Suc 0))) = ''BBB''"
    by (simp_all add: two_updates_def example_world_def script_def ok_def gz_def payload_of_def
        gunzip_def example_lib_def)
  have x: "hex_EncodeToString (md5_Sum example_lib ''BBB'') = ''42424200000000000000000000000000''"
    by code_simp
  have f: "files two_updates = Map.empty" "sent two_updates = []"
    "path_Base example_lib ''GeoIP.dat'' = ''GeoIP.dat''"
    by (simp_all add: two_updates_def example_world_def example_lib_def)
  note t = digest_tracks_payload [OF h, of example_lib default_flags "''506''" "''GeoIP.dat''"
      "''c''" "getProduct_init example_lib default_flags ''GeoIP.dat'' two_updates" two_updates]
  note t1 = t [THEN conjunct1, rule_format]
  note t3 = t [THEN conjunct2, THEN conjunct2, THEN conjunct1, rule_format]
  note t4 = t [THEN conjunct2, THEN conjunct2, THEN conjunct2, rule_format]
  have m: "md5File example_lib (getProduct_filePath example_lib default_flags ''GeoIP.dat'') two_updates
             = ''00000000000000000000000000000000''"
    by (rule t4) (simp add: f)
  from t1 [of 0] l m f have r0: "oldDigest (fst (?rs ! 0)) = ''00000000000000000000000000000000''"
    by simp
  from t1 [of 2] l f p have r2: "uncompressed (fst (?rs ! 2)) = ''BBB''"
    "oldDigest (fst (?rs ! 2)) = hex_EncodeToString (md5_Sum example_lib ''BBB'')"
    by simp_all
  from t3 [of 1] n f m have k1: "sent (snd (getProduct example_lib default_flags ''506'' two_updates)) ! 1
     = poll_request default_flags ''00000000000000000000000000000000'' ''506''
         (getProduct_challenge example_lib default_flags two_updates)"
    by simp
  from t3 [of 3] n f p have k3: "sent (snd (getProduct example_lib default_flags ''506'' two_updates)) ! 3
     = poll_request default_flags (hex_EncodeToString (md5_Sum example_lib ''BBB'')) ''506''
         (getProduct_challenge example_lib default_flags two_updates)"
    by simp
  from r0 r2 k1 k3 x show ?thesis by simp
qed

section \<open>The products of a run\<close>

lemma body_exits:
  "fst (getProduct_body L F p fn c s w) = Leave Exits \<longleftrightarrow> is_GetError (network w (length (sent w)))"
  "fst (getProduct_body L F p fn c s w) \<noteq> Leave Panics"
  unfolding getProduct_body_fst
  by (auto simp: is_GetError_def split: http_reply.splits sum.splits)

lemma loop_exits:
  "fst (getProduct_loop L F p fn c s w) \<noteq> Inr Panics
   \<and> (fst (getProduct_loop L F p fn c s w) = Inr Exits \<longrightarrow>
        is_GetError (network w (length (sent (snd (getProduct_loop L F p fn c s w))) - 1)))
   \<and> (\<forall>k. length (sent w) \<le> k \<and> k < length (sent (snd (getProduct_loop L F p fn c s w)))
           \<and> is_GetError (network w k) \<longrightarrow>
        fst (getProduct_loop L F p fn c s w) = Inr Exits
        \<and> length (sent (snd (getProduct_loop L F p fn c s w))) = k + 1)"
proof (induction L F p fn c s w rule: getProduct_loop.induct)
  case (1 L F p fn c s w)
  obtain fl w' where b: "getProduct_body L F p fn c s w = (fl, w')"
    by (cases "getProduct_body L F p fn c s w")
  then have w': "w' = snd (getProduct_body L F p fn c s w)" and fl: "fl = fst (getProduct_body L F p fn c s w)"
    by simp_all
  have sw': "sent w' = sent w @ [poll_request F (oldDigest s) p c]" and nw': "network w' = network w"
    by (simp_all add: w' getProduct_body_frame)
  show ?case
  proof (cases fl)
    case (Continue s')
    note f = body_Continue_facts [OF b [unfolded Continue]]
    have l: "getProduct_loop L F p fn c s w = getProduct_loop L F p fn c s' w'"
      by (rule loop_Continue [OF b [unfolded Continue]])
    have ng: "\<not> is_GetError (network w (length (sent w)))"
      using f(3) by (auto simp: is_GzipPayload_def is_GetError_def split: http_reply.splits)
    note ih = "1.IH" [OF b [symmetric] Continue]
    have "fst (getProduct_loop L F p fn c s' w') = Inr Exits
        \<and> length (sent (snd (getProduct_loop L F p fn c s' w'))) = k + 1"
      if "length (sent w) \<le> k" "k < length (sent (snd (getProduct_loop L F p fn c s' w')))"
        "is_GetError (network w k)" for k
    proof -
      from that(1,3) ng have "length (sent w') \<le> k"
        by (cases "k = length (sent w)") (simp_all add: sw')
      with ih that(2,3) show ?thesis by (simp add: nw')
    qed
    with ih show ?thesis unfolding l by (auto simp: nw')
  next
    case (Break s')
    have one: "k = length (sent w)" if "length (sent w) \<le> k" "k < Suc (length (sent w))" for k
      using that by simp
    from loop_Break [OF b [unfolded Break]] body_exits(1) [of L F p fn c s w] fl Break
    show ?thesis by (auto simp: sw' dest: one)
  next
    case (Leave out)
    have one: "k = length (sent w)" if "length (sent w) \<le> k" "k < Suc (length (sent w))" for k
      using that by simp
    from loop_Leave [OF b [unfolded Leave]] body_exits [of L F p fn c s w] fl Leave
    show ?thesis by (auto simp: sw' dest: one)
  qed
qed

lemma getProduct_network: "network (snd (getProduct L F p w)) = network w"
proof (cases "\<exists>res name. network w (length (sent w)) = Reply res (Inr name) \<and> isSuccess (StatusCode res)")
  case True
  then obtain res name where a: "network w (length (sent w)) = Reply res (Inr name)"
    "isSuccess (StatusCode res)" by blast
  let ?lp = "getProduct_loop L F p (path_Base L name) (getProduct_challenge L F w)
             (getProduct_init L F name w) (getProduct_start L F p name w)"
  have "network (snd (getProduct L F p w)) = network (snd ?lp)"
    unfolding getProduct_started [OF a]
    by (cases ?lp) (auto simp: publish_frame split: sum.splits)
  then show ?thesis
    using loop_frame [of L F p "path_Base L name" "getProduct_challenge L F w"
        "getProduct_init L F name w" "getProduct_start L F p name w"]
    by (simp add: start_frame)
next
  case False
  show ?thesis
  proof (cases "network w (length (sent w))")
    case (GetError err)
    then show ?thesis by (simp add: getProduct_def download_def http_Get_def log_Printf_def)
  next
    case (Reply res body)
    show ?thesis
    proof (cases body)
      case (Inl err)
      with Reply show ?thesis by (simp add: getProduct_def download_def http_Get_def Let_def log_Printf_def)
    next
      case (Inr name)
      with Reply False have "\<not> isSuccess (StatusCode res)" by simp
      with Reply Inr show ?thesis by (simp add: getProduct_def download_def http_Get_def)
    qed
  qed
qed

text \<open>
  A session ends the process exactly when \<^verbatim>\<open>http.Get\<close> fails on one of its requests,
  which is then its last; a session never panics.
\<close>

lemma getProduct_exits:
  "fst (getProduct L F p w) \<noteq> Panics"
  "fst (getProduct L F p w) = Exits \<Longrightarrow>
     is_GetError (network w (length (sent (snd (getProduct L F p w))) - 1))"
  "length (sent w) \<le> k \<Longrightarrow> k < length (sent (snd (getProduct L F p w))) \<Longrightarrow>
     is_GetError (network w k) \<Longrightarrow>
     fst (getProduct L F p w) = Exits \<and> length (sent (snd (getProduct L F p w))) = k + 1"
proof -
  have "fst (getProduct L F p w) \<noteq> Panics
    \<and> (fst (getProduct L F p w) = Exits \<longrightarrow>
         is_GetError (network w (length (sent (snd (getProduct L F p w))) - 1)))
    \<and> (\<forall>k. length (sent w) \<le> k \<and> k < length (sent (snd (getProduct L F p w)))
           \<and> is_GetError (network w k) \<longrightarrow>
         fst (getProduct L F p w) = Exits \<and> length (sent (snd (getProduct L F p w))) = k + 1)"
  proof (cases "\<exists>res name. network w (length (sent w)) = Reply res (Inr name) \<and> isSuccess (StatusCode res)")
    case True
    then obtain res name where a: "network w (length (sent w)) = Reply res (Inr name)"
      "isSuccess (StatusCode res)" by blast
    let ?w = "getProduct_start L F p name w"
    let ?lp = "getProduct_loop L F p (path_Base L name) (getProduct_challenge L F w)
             (getProduct_init L F name w) ?w"
    obtain r w3 where lp: "?lp = (r, w3)" by (cases ?lp)
    note le = loop_exits [of L F p "path_Base L name" "getProduct_challenge L F w"
        "getProduct_init L F name w" ?w, unfolded lp, simplified]
    have ng: "\<not> is_GetError (network w (length (sent w)))"
      using a by (simp add: is_GetError_def)
    show ?thesis
    proof (cases r)
      case (Inl s)
      have g: "getProduct L F p w = getProduct_publish (getProduct_filePath L F name) (uncompressed s) w3"
        unfolding getProduct_started [OF a] lp Inl by simp
      have o: "fst (getProduct_publish (getProduct_filePath L F name) (uncompressed s) w3) \<noteq> Panics"
        "fst (getProduct_publish (getProduct_filePath L F name) (uncompressed s) w3) \<noteq> Exits"
        by (auto simp: getProduct_publish_def ioutil_WriteFile_def os_Rename_def Let_def
            split: option.splits prod.splits)
      have "\<not> (length (sent w) \<le> k \<and> k < length (sent w3) \<and> is_GetError (network w k))" for k
      proof
        assume k: "length (sent w) \<le> k \<and> k < length (sent w3) \<and> is_GetError (network w k)"
        with ng have "length (sent ?w) \<le> k"
          by (cases "k = length (sent w)") (simp_all add: start_frame)
        with le k Inl show False by (auto simp: start_frame)
      qed
      with o show ?thesis unfolding g by (simp add: publish_frame)
    next
      case (Inr out)
      have g: "getProduct L F p w = (out, w3)"
        unfolding getProduct_started [OF a] lp Inr by simp
      have "fst (getProduct L F p w) = Exits \<and> length (sent (snd (getProduct L F p w))) = k + 1"
        if k: "length (sent w) \<le> k" "k < length (sent w3)" "is_GetError (network w k)" for k
      proof -
        from k ng have "length (sent ?w) \<le> k"
          by (cases "k = length (sent w)") (simp_all add: start_frame)
        with le k Inr show ?thesis unfolding g by (auto simp: start_frame)
      qed
      with le Inr show ?thesis unfolding g by (auto simp: start_frame)
    qed
  next
    case False
    note s = getProduct_not_started(1) [OF False, of L F p]
    have one: "k = length (sent w)" if "length (sent w) \<le> k" "k < Suc (length (sent w))" for k
      using that by simp
    show ?thesis
    proof (cases "network w (length (sent w))")
      case (GetError err)
      then have "fst (getProduct L F p w) = Exits"
        by (simp add: getProduct_def download_def http_Get_def)
      with GetError show ?thesis by (auto simp: s is_GetError_def dest: one)
    next
      case (Reply res body)
      have ng: "\<not> is_GetError (network w (length (sent w)))"
        using Reply by (simp add: is_GetError_def)
      have "fst (getProduct L F p w) \<noteq> Panics \<and> fst (getProduct L F p w) \<noteq> Exits"
      proof (cases body)
        case (Inl err)
        with Reply show ?thesis by (simp add: getProduct_def download_def http_Get_def Let_def)
      next
        case (Inr name)
        with Reply False have "\<not> isSuccess (StatusCode res)" by simp
        with Reply Inr show ?thesis by (simp add: getProduct_def download_def http_Get_def)
      qed
      with ng show ?thesis by (auto simp: s dest: one)
    qed
  qed
  then show "fst (getProduct L F p w) \<noteq> Panics"
    "fst (getProduct L F p w) = Exits \<Longrightarrow>
     is_GetError (network w (length (sent (snd (getProduct L F p w))) - 1))"
    "length (sent w) \<le> k \<Longrightarrow> k < length (sent (snd (getProduct L F p w))) \<Longrightarrow>
     is_GetError (network w k) \<Longrightarrow>
     fst (getProduct L F p w) = Exits \<and> length (sent (snd (getProduct L F p w))) = k + 1"
    by blast+
qed


lemma getProduct_attempted:
  "attempted p (drop (length (sent w)) (sent (snd (getProduct L F p w))))"
proof -
  from getProduct_sent [of L F p w] obtain ys where
    "sent (snd (getProduct L F p w)) = sent w @ getfilename_request F p # ys" by blast
  then show ?thesis
    by (simp add: attempted_def getfilename_request_def request_of_def)
qed

lemma attempted_append:
  "attempted p (drop n xs) \<Longrightarrow> attempted p (drop n (xs @ zs))"
  "n \<le> m \<Longrightarrow> attempted p (drop m xs) \<Longrightarrow> attempted p (drop n xs)"
proof -
  show "attempted p (drop n xs) \<Longrightarrow> attempted p (drop n (xs @ zs))"
    by (auto simp: attempted_def list_ex_iff)
  show "attempted p (drop n xs)" if "n \<le> m" "attempted p (drop m xs)"
  proof -
    from that(1) have "set (drop m xs) \<subseteq> set (drop n xs)"
      by (rule set_drop_subset_set_drop)
    with that(2) show ?thesis
      by (auto simp: attempted_def list_ex_iff)
  qed
qed

lemma main_products_frame:
  "network (snd (main_products L F ps w)) = network w
   \<and> (\<exists>zs. sent (snd (main_products L F ps w)) = sent w @ zs)
   \<and> fst (main_products L F ps w) \<noteq> Panics"
proof (induction ps arbitrary: w)
  case Nil
  then show ?case by simp
next
  case (Cons p ps)
  obtain out w1 where g: "getProduct L F p w = (out, w1)" by (cases "getProduct L F p w")
  from getProduct_sent [of L F p w] g obtain ys where
    ys: "sent w1 = sent w @ getfilename_request F p # ys" by auto
  from getProduct_network [of L F p w] g have n: "network w1 = network w" by simp
  from getProduct_exits(1) [of L F p w] g have np: "out \<noteq> Panics" by simp
  show ?case
  proof (cases out)
    case (Returns e)
    with g have m: "main_products L F (p # ps) w = main_products L F ps w1" by simp
    from Cons.IH [of w1] show ?thesis unfolding m by (auto simp: n ys)
  next
    case Exits
    with g show ?thesis by (simp add: n ys)
  next
    case Panics
    with np show ?thesis by simp
  qed
qed

lemma main_products_all_attempted:
  assumes "\<forall>k \<ge> length (sent w). \<not> is_GetError (network w k)"
  shows "fst (main_products L F ps w) = Returns ()
         \<and> (\<forall>p\<in>set ps. attempted p (drop (length (sent w)) (sent (snd (main_products L F ps w)))))"
  using assms
proof (induction ps arbitrary: w)
  case Nil
  then show ?case by simp
next
  case (Cons p ps)
  obtain out w1 where g: "getProduct L F p w = (out, w1)" by (cases "getProduct L F p w")
  from getProduct_sent [of L F p w] g obtain ys where
    ys: "sent w1 = sent w @ getfilename_request F p # ys" by auto
  from getProduct_network [of L F p w] g have n: "network w1 = network w" by simp
  have "out \<noteq> Exits"
  proof
    assume "out = Exits"
    with getProduct_exits(2) [of L F p w] g
    have "is_GetError (network w (length (sent w1) - 1))" by simp
    moreover have "length (sent w) \<le> length (sent w1) - 1" by (simp add: ys)
    ultimately show False using Cons.prems by blast
  qed
  moreover from getProduct_exits(1) [of L F p w] g have "out \<noteq> Panics" by simp
  ultimately obtain e where "out = Returns e" by (cases out) simp_all
  with g have m: "main_products L F (p # ps) w = main_products L F ps w1" by simp
  have le: "length (sent w) \<le> length (sent w1)" by (simp add: ys)
  have "\<forall>k \<ge> length (sent w1). \<not> is_GetError (network w1 k)"
    using Cons.prems le by (simp add: n)
  from Cons.IH [OF this]
  have ih: "fst (main_products L F ps w1) = Returns ()"
    "\<forall>q\<in>set ps. attempted q (drop (length (sent w1)) (sent (snd (main_products L F ps w1))))"
    by simp_all
  from main_products_frame [of L F ps w1] obtain zs where
    zs: "sent (snd (main_products L F ps w1)) = sent w1 @ zs" by blast
  have "attempted p (drop (length (sent w)) (sent w1))"
    using getProduct_attempted [of p w L F] g by simp
  then have a: "attempted p (drop (length (sent w)) (sent (snd (main_products L F ps w1))))"
    unfolding zs by (rule attempted_append(1))
  have b: "attempted q (drop (length (sent w)) (sent (snd (main_products L F ps w1))))"
    if "q \<in> set ps" for q
    using attempted_append(2) [OF le] ih(2) that by blast
  from ih(1) a b show ?case unfolding m by auto
qed

lemma main_products_exit:
  assumes "length (sent w) \<le> k" "k < length (sent (snd (main_products L F ps w)))"
    "is_GetError (network w k)"
  shows "fst (main_products L F ps w) = Exits
         \<and> length (sent (snd (main_products L F ps w))) = k + 1"
  using assms
proof (induction ps arbitrary: w)
  case Nil
  then show ?case by simp
next
  case (Cons p ps)
  obtain out w1 where g: "getProduct L F p w = (out, w1)" by (cases "getProduct L F p w")
  from getProduct_network [of L F p w] g have n: "network w1 = network w" by simp
  show ?case
  proof (cases "k < length (sent w1)")
    case True
    with getProduct_exits(3) [of w k L F p] g Cons.prems(1,3)
    have "out = Exits" "length (sent w1) = k + 1" by simp_all
    with g show ?thesis by simp
  next
    case False
    then have le: "length (sent w1) \<le> k" by simp
    have "out \<noteq> Exits"
    proof
      assume e: "out = Exits"
      with g have "snd (main_products L F (p # ps) w) = w1" by simp
      with Cons.prems(2) False show False by simp
    qed
    moreover from getProduct_exits(1) [of L F p w] g have "out \<noteq> Panics" by simp
    ultimately obtain e where "out = Returns e" by (cases out) simp_all
    with g have m: "main_products L F (p # ps) w = main_products L F ps w1" by simp
    from Cons.IH [OF le] Cons.prems(2,3) show ?thesis unfolding m by (simp add: n)
  qed
qed

section \<open>A failure in one session and the other products\<close>

text \<open>
  Claim C4, as the code has it. \<^verbatim>\<open>main\<close> drops what \<^verbatim>\<open>getProduct\<close> returns, so while
  every request can be sent the loop over the products returns and has attempted every
  product, whatever else went wrong in the sessions (a body that could not be read, a
  status outside the band, a malformed or undecompressable payload, too many rounds, a
  write or rename that failed). But when \<^verbatim>\<open>http.Get\<close> fails on a request, \<^verbatim>\<open>download\<close>
  calls \<^verbatim>\<open>log.Fatal\<close>: the process exits there, that request is the last one sent, and
  the products after the current one are not attempted.
\<close>

theorem products_attempted_unless_exit:
  "((\<forall>k \<ge> length (sent w). \<not> is_GetError (network w k)) \<longrightarrow>
      fst (main_products L F ps w) = Returns ()
      \<and> (\<forall>p\<in>set ps. attempted p (drop (length (sent w)) (sent (snd (main_products L F ps w))))))
   \<and> (\<forall>k. length (sent w) \<le> k \<and> k < length (sent (snd (main_products L F ps w)))
           \<and> is_GetError (network w k) \<longrightarrow>
        fst (main_products L F ps w) = Exits
        \<and> length (sent (snd (main_products L F ps w))) = k + 1)"
  using main_products_all_attempted [of w L F ps] main_products_exit [of w _ L F ps]
  by blast

theorem products_attempted_unless_exit_witness:
  "fst (main_products example_lib default_flags [''506'', ''533'', ''517''] (example_world flaky))
     = Returns ()
   \<and> attempted ''506''
       (sent (snd (main_products example_lib default_flags [''506'', ''533'', ''517''] (example_world flaky))))
   \<and> attempted ''533''
       (sent (snd (main_products example_lib default_flags [''506'', ''533'', ''517''] (example_world flaky))))
   \<and> attempted ''517''
       (sent (snd (main_products example_lib default_flags [''506'', ''533'', ''517''] (example_world flaky))))
   \<and> fst (main_products example_lib default_flags [''506'', ''533'', ''517''] unreachable_after_ip)
     = Exits
   \<and> length (sent (snd (main_products example_lib default_flags [''506'', ''533'', ''517'']
                          unreachable_after_ip))) = 2"
proof -
  have h1: "\<forall>k \<ge> length (sent (example_world flaky)). \<not> is_GetError (network (example_world flaky) k)"
    by (simp add: example_world_def flaky_def ok_def is_GetError_def)
  have h2: "length (sent unreachable_after_ip) \<le> 1"
    "is_GetError (network unreachable_after_ip 1)"
    by (simp_all add: unreachable_after_ip_def example_world_def script_def is_GetError_def)
  have h3: "1 < length (sent (snd (main_products example_lib default_flags [''506'', ''533'', ''517'']
                          unreachable_after_ip)))"
    by code_simp
  have s: "sent (example_world flaky) = []" by (simp add: example_world_def)
  note t1 = products_attempted_unless_exit [THEN conjunct1, THEN mp, OF h1,
      of example_lib default_flags "[''506'', ''533'', ''517'']"]
  note t2 = products_attempted_unless_exit [THEN conjunct2, rule_format,
      of unreachable_after_ip 1 example_lib default_flags "[''506'', ''533'', ''517'']"]
  from t1 t2 h2 h3 s show ?thesis by simp
qed

text \<open>
  Claim C4, as it is stated, fails: with the server reached for the client's address
  and \<^verbatim>\<open>http.Get\<close> failing on the next request (the first request for product 506),
  \<^verbatim>\<open>main\<close> exits, and the products 533 and 517 are never attempted.
\<close>

theorem unsent_request_ends_run:
  "is_GetError (network unreachable_after_ip 1)
   \<and> fst (main example_lib default_flags unreachable_after_ip) = Exits
   \<and> attempted ''506'' (sent (snd (main example_lib default_flags unreachable_after_ip)))
   \<and> \<not> attempted ''533'' (sent (snd (main example_lib default_flags unreachable_after_ip)))
   \<and> \<not> attempted ''517'' (sent (snd (main example_lib default_flags unreachable_after_ip)))"
  by code_simp

end
